theory Spec2Isabelle
  imports Main
begin

section \<open>The data model of \<open>src/lib/lock.ts\<close>\<close>

text \<open>
  \<open>MasterId\<close> and \<open>MasterIdWrapped\<close> are the two interfaces of the source. The field
  \<open>value\<close> of the wrapper is called \<open>wvalue\<close> here.
\<close>

record MasterId =
  now :: string
  eid :: string
  sid :: "string option"

record MasterIdWrapped =
  wvalue :: "MasterId option"
  nonce :: string

text \<open>
  What a storage can hand back from \<open>get\<close>: \<open>null\<close>, a string, a wrapper object, or
  any other value (a number, a boolean, an array, an object with no \<open>value\<close>). An
  object whose \<open>value\<close> is set but is no \<open>MasterId\<close> is outside the type
  \<open>MasterIdWrapped\<close> that the lock reads the slot at, and outside this model.
\<close>

datatype jsval = JNull | JStr string | JWrap MasterIdWrapped | JOther

text \<open>An entry of the ambient \<open>global\<close> object: a string or a value of another type.\<close>

datatype gval = GStr string | GOther

text \<open>
  The functions of the platform that the source calls and that are not part of the
  repository are parameters of the model: \<open>JSON.stringify\<close>, \<open>JSON.parse\<close>
  (\<open>None\<close> when it throws) and \<open>new Date(s).getTime()\<close> (\<open>None\<close> for \<open>NaN\<close>).
\<close>

record platform =
  stringify :: "jsval \<Rightarrow> string"
  parse :: "string \<Rightarrow> jsval option"
  getTime :: "string \<Rightarrow> int option"

text \<open>
  The world the code runs in: the ambient \<open>global\<close> object, \<open>localStorage\<close> when it is
  defined, the successive results of \<open>random(8)\<close> and of \<open>new Date().toISOString()\<close>
  with the number of results consumed so far, and the private state of an injected storage.
\<close>

record 'x world =
  global :: "string \<rightharpoonup> gval"
  localStorage :: "(string \<rightharpoonup> string) option"
  rands :: "nat \<Rightarrow> string"
  nrand :: nat
  clock :: "nat \<Rightarrow> string"
  ticks :: nat
  ext :: 'x

text \<open>
  The \<open>Storage\<close> interface. \<open>set<T>\<close> has the result type \<open>T | null\<close>; the lock calls
  it at \<open>T = MasterIdWrapped\<close> and at \<open>T = string\<close>, which are the two fields
  \<open>set_wrapped\<close> and \<open>set_string\<close>. The result of \<open>get\<close> is inspected by the code at
  run time, so it is a \<open>jsval\<close>. \<open>delete\<close> is optional. Each operation takes the
  world and returns its result with the new world; the lock has no handler for a
  rejected promise, and an operation that rejects is not modelled.
\<close>

record 'x Storage =
  set_wrapped :: "string \<Rightarrow> MasterIdWrapped \<Rightarrow> 'x world \<Rightarrow> MasterIdWrapped option \<times> 'x world"
  set_string :: "string \<Rightarrow> string \<Rightarrow> 'x world \<Rightarrow> string option \<times> 'x world"
  get :: "string \<Rightarrow> 'x world \<Rightarrow> jsval \<times> 'x world"
  delete :: "(string \<Rightarrow> 'x world \<Rightarrow> 'x world) option"

record 'x Lock =
  name :: string
  storage :: "'x Storage"

section \<open>The platform's sources of randomness and time\<close>

definition random8 :: "'x world \<Rightarrow> string \<times> 'x world" where
  "random8 w = (rands w (nrand w), w\<lparr>nrand := Suc (nrand w)\<rparr>)"

definition toISOString_now :: "'x world \<Rightarrow> string \<times> 'x world" where
  "toISOString_now w = (clock w (ticks w), w\<lparr>ticks := Suc (ticks w)\<rparr>)"

section \<open>The default storage of the constructor\<close>

definition default_get :: "platform \<Rightarrow> string \<Rightarrow> 'x world \<Rightarrow> jsval \<times> 'x world" where
  "default_get P key w =
     (let result = (case localStorage w of
                      Some ls \<Rightarrow> map_option GStr (ls key)
                    | None \<Rightarrow> global w key)
      in case result of
           Some (GStr s) \<Rightarrow> (case parse P s of Some v \<Rightarrow> (v, w) | None \<Rightarrow> (JStr s, w))
         | _ \<Rightarrow> (JNull, w))"

definition compare :: "platform \<Rightarrow> jsval \<Rightarrow> jsval \<Rightarrow> bool" where
  "compare P lhs rhs \<longleftrightarrow> stringify P lhs = stringify P rhs"

definition default_set :: "platform \<Rightarrow> string \<Rightarrow> jsval \<Rightarrow> 'x world \<Rightarrow> jsval \<times> 'x world" where
  "default_set P key v w =
     (let w1 = (case localStorage w of
                  Some ls \<Rightarrow> w\<lparr>localStorage := Some (ls(key \<mapsto> stringify P v))\<rparr>
                | None \<Rightarrow> w\<lparr>global := (global w)(key \<mapsto> GStr (stringify P v))\<rparr>);
          (result, w2) = default_get P key w1
      in (if compare P result v then v else JNull, w2))"

definition default_delete :: "string \<Rightarrow> 'x world \<Rightarrow> 'x world" where
  "default_delete key w =
     (case localStorage w of
        Some ls \<Rightarrow> w\<lparr>localStorage := Some (ls(key := None))\<rparr>
      | None \<Rightarrow> w\<lparr>global := (global w)(key := None)\<rparr>)"

text \<open>
  The default \<open>set\<close> returns the value it was given or \<open>null\<close>, so at the two types
  the lock uses its result is read back without loss.
\<close>

definition default_storage :: "platform \<Rightarrow> 'x Storage" where
  "default_storage P =
     \<lparr> set_wrapped = (\<lambda>key v w. case default_set P key (JWrap v) w of
                         (JWrap r, w') \<Rightarrow> (Some r, w') | (_, w') \<Rightarrow> (None, w')),
       set_string = (\<lambda>key v w. case default_set P key (JStr v) w of
                         (JStr r, w') \<Rightarrow> (Some r, w') | (_, w') \<Rightarrow> (None, w')),
       get = default_get P,
       delete = Some default_delete \<rparr>"

section \<open>The lock\<close>

subsection \<open>Storage keys\<close>

text \<open>
  The template literal \<open>`${index}`\<close> renders the number in decimal. The index is an
  integer here (the source's type is \<open>number\<close>; it is documented as an index).
\<close>

fun digits :: "nat \<Rightarrow> string" where
  "digits n = (if n < 10 then [''0123456789'' ! n]
               else digits (n div 10) @ [''0123456789'' ! (n mod 10)])"

definition number_to_string :: "int \<Rightarrow> string" where
  "number_to_string i = (if i < 0 then CHR ''-'' # digits (nat (- i)) else digits (nat i))"

definition getMasterIdPath :: "'x Lock \<Rightarrow> int \<Rightarrow> string" where
  "getMasterIdPath lk index = name lk @ ''/master-id/'' @ number_to_string index"

definition getSessionIdPath :: "'x Lock \<Rightarrow> string" where
  "getSessionIdPath lk = name lk @ ''/session-id''"

definition getEphemeralPath :: "'x Lock \<Rightarrow> string" where
  "getEphemeralPath lk = name lk @ ''/ephemeral-id''"

subsection \<open>The constructor\<close>

text \<open>
  \<open>name\<close> is \<open>None\<close> for \<open>null\<close> and \<open>undefined\<close>; \<open>if (name)\<close> is false for them
  and for the empty string. \<open>clear\<close> is \<open>False\<close> when it is left out.
\<close>

definition new_Lock ::
  "platform \<Rightarrow> string option \<Rightarrow> bool \<Rightarrow> 'x Storage option \<Rightarrow> 'x world \<Rightarrow> 'x Lock \<times> 'x world" where
  "new_Lock P nm clear st w =
     (let s = (case st of Some s \<Rightarrow> s | None \<Rightarrow> default_storage P);
          (n, w1) = (case nm of
                       Some n \<Rightarrow> if n \<noteq> [] then (n, w) else random8 w
                     | None \<Rightarrow> random8 w);
          lk = \<lparr> name = n, storage = s \<rparr>
      in if clear
         then (lk, w1\<lparr>global := (global w1)(getEphemeralPath lk := None)\<rparr>)
         else (lk, w1))"

subsection \<open>Identities\<close>

definition setEphemeralId :: "'x Lock \<Rightarrow> string \<Rightarrow> 'x world \<Rightarrow> string \<times> 'x world" where
  "setEphemeralId lk v w = (v, w\<lparr>global := (global w)(getEphemeralPath lk \<mapsto> GStr v)\<rparr>)"

definition getEphemeralId :: "'x Lock \<Rightarrow> 'x world \<Rightarrow> string \<times> 'x world" where
  "getEphemeralId lk w =
     (case global w (getEphemeralPath lk) of
        Some (GStr i) \<Rightarrow>
          if i \<noteq> [] then (i, w)
          else (let (r, w1) = random8 w in setEphemeralId lk r w1)
      | _ \<Rightarrow> (let (r, w1) = random8 w in setEphemeralId lk r w1))"

definition setSessionId :: "'x Lock \<Rightarrow> string \<Rightarrow> 'x world \<Rightarrow> string option \<times> 'x world" where
  "setSessionId lk v w = set_string (storage lk) (getSessionIdPath lk) v w"

definition getSessionId :: "'x Lock \<Rightarrow> 'x world \<Rightarrow> string option \<times> 'x world" where
  "getSessionId lk w =
     (let (i, w1) = get (storage lk) (getSessionIdPath lk) w
      in case i of
           JStr s \<Rightarrow>
             if s \<noteq> [] then (Some s, w1)
             else (let (r, w2) = random8 w1 in setSessionId lk r w2)
         | _ \<Rightarrow> (let (r, w2) = random8 w1 in setSessionId lk r w2))"

definition newMasterId :: "'x Lock \<Rightarrow> 'x world \<Rightarrow> MasterId \<times> 'x world" where
  "newMasterId lk w =
     (let (t, w1) = toISOString_now w;
          (e, w2) = getEphemeralId lk w1;
          (s, w3) = getSessionId lk w2
      in (\<lparr> now = t, eid = e, sid = s \<rparr>, w3))"

definition cmpMasterId :: "MasterId \<Rightarrow> MasterId \<Rightarrow> bool" where
  "cmpMasterId lhs rhs =
     (if eid lhs = eid rhs then
        (if sid lhs = sid rhs then
           (if sid lhs \<noteq> None \<and> sid rhs \<noteq> None then True else False)
         else False)
      else False)"

subsection \<open>The master-id slot\<close>

definition setMasterId ::
  "'x Lock \<Rightarrow> int \<Rightarrow> MasterId option \<Rightarrow> 'x world \<Rightarrow> MasterId option \<times> 'x world" where
  "setMasterId lk index v w =
     (let (r, w1) = random8 w;
          (result, w2) = set_wrapped (storage lk) (getMasterIdPath lk index)
                           \<lparr> wvalue = v, nonce = r \<rparr> w1
      in (case result of Some res \<Rightarrow> wvalue res | None \<Rightarrow> None, w2))"

definition getMasterId ::
  "'x Lock \<Rightarrow> int \<Rightarrow> bool \<Rightarrow> 'x world \<Rightarrow> MasterId option \<times> 'x world" where
  "getMasterId lk index force w =
     (let (wid, w1) = get (storage lk) (getMasterIdPath lk index) w
      in case (case wid of JWrap x \<Rightarrow> wvalue x | _ \<Rightarrow> None) of
           Some m \<Rightarrow>
             if \<not> force then (Some m, w1)
             else (let (m', w2) = newMasterId lk w1 in setMasterId lk index (Some m') w2)
         | None \<Rightarrow> (let (m', w2) = newMasterId lk w1 in setMasterId lk index (Some m') w2))"

subsection \<open>Acquire and release\<close>

text \<open>
  The time value of a \<open>Date\<close> is \<open>NaN\<close> or a whole number of milliseconds of
  magnitude at most 8.64e15; \<open>date_ms\<close> is \<open>new Date(s).getTime()\<close> with \<open>None\<close>
  for \<open>NaN\<close>, and reads the platform's \<open>getTime\<close> within that range.
\<close>

definition date_ms :: "platform \<Rightarrow> string \<Rightarrow> int option" where
  "date_ms P s =
     (case getTime P s of
        Some t \<Rightarrow> if \<bar>t\<bar> \<le> 8640000000000000 then Some t else None
      | None \<Rightarrow> None)"

text \<open>
  The two time values are doubles, and so is their difference: the exact difference
  has a magnitude below \<open>2^54\<close> and is rounded to the nearest double, a tie to the
  even significand. Up to \<open>2^53\<close> every whole number is a double; between \<open>2^53\<close>
  and \<open>2^54\<close> the even ones are, and of the two neighbours of an odd number the
  multiple of 4 has the even significand.
\<close>

definition to_double :: "int \<Rightarrow> int" where
  "to_double d =
     (if \<bar>d\<bar> \<le> 9007199254740992 then d
      else if even d then d
      else if 4 dvd (d + 1) then d + 1 else d - 1)"

text \<open>
  \<open>result_ms\<close> is \<open>master_ms - global_ms\<close>, \<open>None\<close> when it is \<open>NaN\<close>. A comparison
  with \<open>NaN\<close> is false, so \<open>NaN\<close> neither expires nor is positive. \<open>expire\<close> is \<open>None\<close>
  when it is left out, and a whole number of milliseconds otherwise.
\<close>

definition result_ms :: "platform \<Rightarrow> MasterId \<Rightarrow> MasterId \<Rightarrow> int option" where
  "result_ms P global_id master_id =
     (case (date_ms P (now master_id), date_ms P (now global_id)) of
        (Some master_ms, Some global_ms) \<Rightarrow> Some (to_double (master_ms - global_ms))
      | _ \<Rightarrow> None)"

definition expired :: "int option \<Rightarrow> int option \<Rightarrow> bool" where
  "expired expire ms =
     (case expire of
        None \<Rightarrow> False
      | Some e \<Rightarrow> (case ms of None \<Rightarrow> False | Some d \<Rightarrow> \<bar>d\<bar> > e))"

definition age :: "int option \<Rightarrow> int" where
  "age ms = (case ms of Some d \<Rightarrow> if d > 0 then d else 1 | None \<Rightarrow> 1)"

text \<open>
  \<open>lockAge\<close> calls itself, and nothing in the source bounds the depth. The first
  argument bounds it here: \<open>None\<close> is a run that needs a deeper recursion, and
  \<open>Some (r, w)\<close> is a run that returns \<open>r\<close> (\<open>None\<close> for \<open>null\<close>) in the world \<open>w\<close>.
\<close>

fun lockAge ::
  "nat \<Rightarrow> platform \<Rightarrow> 'x Lock \<Rightarrow> int \<Rightarrow> int option \<Rightarrow> bool \<Rightarrow> 'x world
     \<Rightarrow> (int option \<times> 'x world) option" where
  "lockAge 0 P lk index expire force w = None"
| "lockAge (Suc k) P lk index expire force w =
     (let (global_id, w1) = getMasterId lk index force w
      in case global_id of
           None \<Rightarrow> Some (None, w1)
         | Some g \<Rightarrow>
             (let (m, w2) = newMasterId lk w1;
                  ms = result_ms P g m
              in if expired expire ms then lockAge k P lk index expire True w2
                 else if cmpMasterId g m then Some (Some (age ms), w2)
                 else Some (None, w2)))"

definition acquire ::
  "nat \<Rightarrow> platform \<Rightarrow> 'x Lock \<Rightarrow> int \<Rightarrow> int option \<Rightarrow> 'x world
     \<Rightarrow> (int option \<times> 'x world) option" where
  "acquire k P lk index expire w = lockAge k P lk index expire False w"

definition release :: "'x Lock \<Rightarrow> int \<Rightarrow> 'x world \<Rightarrow> bool \<times> 'x world" where
  "release lk index w =
     (let (r, w1) = setMasterId lk index None w in (r = None, w1))"

section \<open>Notions for stating the properties\<close>

text \<open>The default storage keeps what it is given on a platform whose \<open>JSON.parse\<close> reads
  back what \<open>JSON.stringify\<close> wrote.\<close>

definition json_roundtrip :: "platform \<Rightarrow> bool" where
  "json_roundtrip P \<longleftrightarrow> (\<forall>v. parse P (stringify P v) = Some v)"

text \<open>The storage and ambient keys that a lock addresses.\<close>

definition keys :: "'x Lock \<Rightarrow> string set" where
  "keys lk = {getSessionIdPath lk, getEphemeralPath lk} \<union> range (getMasterIdPath lk)"

text \<open>
  A pass of \<open>lockAge\<close> is the body of one call: \<open>getMasterId\<close>, and with an owner
  \<open>newMasterId\<close> for the candidate. \<open>after_pass\<close> is the world a pass leaves behind,
  and \<open>pass_settles\<close> says that the pass returns without calling \<open>lockAge\<close> again.
\<close>

definition after_pass :: "'x Lock \<Rightarrow> int \<Rightarrow> bool \<Rightarrow> 'x world \<Rightarrow> 'x world" where
  "after_pass lk index force w = snd (newMasterId lk (snd (getMasterId lk index force w)))"

definition pass_settles ::
  "platform \<Rightarrow> 'x Lock \<Rightarrow> int \<Rightarrow> int option \<Rightarrow> bool \<Rightarrow> 'x world \<Rightarrow> bool" where
  "pass_settles P lk index expire force w =
     (case getMasterId lk index force w of
        (None, w1) \<Rightarrow> True
      | (Some g, w1) \<Rightarrow> \<not> expired expire (result_ms P g (fst (newMasterId lk w1))))"

text \<open>
  For a lock on the default storage: the text that the default storage holds under a
  key (in \<open>localStorage\<close> when it is defined, in the ambient object otherwise), and
  the world after the default storage has put a text under a key.
\<close>

definition stored :: "'x world \<Rightarrow> string \<Rightarrow> string option" where
  "stored w key =
     (case localStorage w of
        Some ls \<Rightarrow> ls key
      | None \<Rightarrow> (case global w key of Some (GStr s) \<Rightarrow> Some s | _ \<Rightarrow> None))"

definition put :: "string \<Rightarrow> string \<Rightarrow> 'x world \<Rightarrow> 'x world" where
  "put key s w =
     (case localStorage w of
        Some ls \<Rightarrow> w\<lparr>localStorage := Some (ls(key \<mapsto> s))\<rparr>
      | None \<Rightarrow> w\<lparr>global := (global w)(key \<mapsto> GStr s)\<rparr>)"

text \<open>
  After an expired pass \<open>lockAge\<close> calls itself with \<open>force = true\<close> in the world
  that the pass left behind: \<open>retry\<close> is that step from one call to the next
  (\<open>None\<close> when the pass returns instead), and \<open>retries n\<close> is \<open>n\<close> such steps.
\<close>

definition retry ::
  "platform \<Rightarrow> 'x Lock \<Rightarrow> int \<Rightarrow> int option \<Rightarrow> bool \<times> 'x world \<Rightarrow> (bool \<times> 'x world) option" where
  "retry P lk index expire c =
     (case getMasterId lk index (fst c) (snd c) of
        (None, w1) \<Rightarrow> None
      | (Some g, w1) \<Rightarrow>
          (let (m, w2) = newMasterId lk w1
           in if expired expire (result_ms P g m) then Some (True, w2) else None))"

fun retries ::
  "nat \<Rightarrow> platform \<Rightarrow> 'x Lock \<Rightarrow> int \<Rightarrow> int option \<Rightarrow> bool \<times> 'x world
     \<Rightarrow> (bool \<times> 'x world) option" where
  "retries 0 P lk index expire c = Some c"
| "retries (Suc n) P lk index expire c =
     (case retry P lk index expire c of
        None \<Rightarrow> None
      | Some c' \<Rightarrow> retries n P lk index expire c')"

text \<open>
  What the lock's storage reads under a key, and a storage that keeps what is
  written: a \<open>get\<close> changes nothing that is read and leaves the random source, the
  clock and the ambient ephemeral id of the lock alone; a \<open>set\<close> under a key other than
  the ambient one verifies (it returns the value written), leaves the same things
  alone, and afterwards that value is read under its key and what was read before under
  every other key; and what is read does not depend on the random source, the clock or
  the ambient ephemeral id.
\<close>

definition reads :: "'x Lock \<Rightarrow> 'x world \<Rightarrow> string \<Rightarrow> jsval" where
  "reads lk w key = fst (get (storage lk) key w)"

definition untouched :: "'x Lock \<Rightarrow> 'x world \<Rightarrow> 'x world \<Rightarrow> bool" where
  "untouched lk w w' \<longleftrightarrow>
     rands w' = rands w \<and> nrand w' = nrand w \<and> clock w' = clock w \<and> ticks w' = ticks w \<and>
     global w' (getEphemeralPath lk) = global w (getEphemeralPath lk)"

definition keeps :: "'x Lock \<Rightarrow> bool" where
  "keeps lk \<longleftrightarrow>
     (\<forall>key w. untouched lk w (snd (get (storage lk) key w)) \<and>
              (\<forall>k. reads lk (snd (get (storage lk) key w)) k = reads lk w k)) \<and>
     (\<forall>key v w. key \<noteq> getEphemeralPath lk \<longrightarrow>
              fst (set_wrapped (storage lk) key v w) = Some v \<and>
              untouched lk w (snd (set_wrapped (storage lk) key v w)) \<and>
              (\<forall>k. reads lk (snd (set_wrapped (storage lk) key v w)) k =
                     (if k = key then JWrap v else reads lk w k))) \<and>
     (\<forall>key v w. key \<noteq> getEphemeralPath lk \<longrightarrow>
              fst (set_string (storage lk) key v w) = Some v \<and>
              untouched lk w (snd (set_string (storage lk) key v w)) \<and>
              (\<forall>k. reads lk (snd (set_string (storage lk) key v w)) k =
                     (if k = key then JStr v else reads lk w k))) \<and>
     (\<forall>key w n. reads lk (w\<lparr>nrand := n\<rparr>) key = reads lk w key) \<and>
     (\<forall>key w t. reads lk (w\<lparr>ticks := t\<rparr>) key = reads lk w key) \<and>
     (\<forall>key w x. key \<noteq> getEphemeralPath lk \<longrightarrow>
              reads lk (w\<lparr>global := (global w)(getEphemeralPath lk \<mapsto> x)\<rparr>) key = reads lk w key)"

text \<open>
  The identity \<open>(e, s)\<close> of the caller is established: the ambient object holds the
  ephemeral id \<open>e\<close> and the storage reads the session id \<open>s\<close>, both non-empty.
  \<open>tokens\<close> says that \<open>random(8)\<close> never returns the empty string.
\<close>

definition identity :: "'x Lock \<Rightarrow> 'x world \<Rightarrow> string \<Rightarrow> string \<Rightarrow> bool" where
  "identity lk w e s \<longleftrightarrow>
     global w (getEphemeralPath lk) = Some (GStr e) \<and> e \<noteq> [] \<and>
     reads lk w (getSessionIdPath lk) = JStr s \<and> s \<noteq> []"

definition tokens :: "'x world \<Rightarrow> bool" where
  "tokens w \<longleftrightarrow> (\<forall>i. rands w i \<noteq> [])"

text \<open>
  The slot holds the record \<open>m\<close> and \<open>m\<close> is the caller's: its \<open>eid\<close> is the
  ephemeral id that the ambient object holds and its \<open>sid\<close> is the session id that
  the storage reads.
\<close>

definition holds :: "'x Lock \<Rightarrow> int \<Rightarrow> 'x world \<Rightarrow> MasterId \<Rightarrow> bool" where
  "holds lk index w m \<longleftrightarrow>
     (\<exists>n s. reads lk w (getMasterIdPath lk index) = JWrap \<lparr> wvalue = Some m, nonce = n \<rparr> \<and>
            sid m = Some s \<and> identity lk w (eid m) s)"

section \<open>Concrete platforms, storages and worlds for the examples\<close>

text \<open>
  A platform whose serialisation writes a tag and then the fields, each string field
  but the last behind its length in unary, and whose \<open>parse\<close> reads that form back.
  Its \<open>getTime\<close> knows the instants of the first milliseconds of 1970.
\<close>

definition enc :: "string \<Rightarrow> string" where
  "enc s = replicate (length s) (CHR ''1'') @ CHR ''0'' # s"

definition dec :: "string \<Rightarrow> string \<times> string" where
  "dec xs = (let n = length (takeWhile (\<lambda>c. c = CHR ''1'') xs)
             in (take n (drop (Suc n) xs), drop (Suc n + n) xs))"

definition ex_stringify :: "jsval \<Rightarrow> string" where
  "ex_stringify v =
     (case v of
        JNull \<Rightarrow> ''n''
      | JOther \<Rightarrow> ''o''
      | JStr s \<Rightarrow> CHR ''s'' # s
      | JWrap x \<Rightarrow>
          (case wvalue x of
             None \<Rightarrow> CHR ''u'' # nonce x
           | Some m \<Rightarrow>
               (case sid m of
                  None \<Rightarrow> CHR ''v'' # enc (now m) @ enc (eid m) @ nonce x
                | Some i \<Rightarrow> CHR ''w'' # enc (now m) @ enc (eid m) @ enc i @ nonce x)))"

definition ex_parse :: "string \<Rightarrow> jsval option" where
  "ex_parse xs =
     (case xs of
        [] \<Rightarrow> None
      | c # r \<Rightarrow>
          if c = CHR ''n'' \<and> r = [] then Some JNull
          else if c = CHR ''o'' \<and> r = [] then Some JOther
          else if c = CHR ''s'' then Some (JStr r)
          else if c = CHR ''u'' then Some (JWrap \<lparr> wvalue = None, nonce = r \<rparr>)
          else if c = CHR ''v'' then
            (let (t, r1) = dec r; (e, r2) = dec r1
             in Some (JWrap \<lparr> wvalue = Some \<lparr> now = t, eid = e, sid = None \<rparr>, nonce = r2 \<rparr>))
          else if c = CHR ''w'' then
            (let (t, r1) = dec r; (e, r2) = dec r1; (i, r3) = dec r2
             in Some (JWrap \<lparr> wvalue = Some \<lparr> now = t, eid = e, sid = Some i \<rparr>, nonce = r3 \<rparr>))
          else None)"

definition ex_getTime :: "string \<Rightarrow> int option" where
  "ex_getTime s =
     (if s = ''1970-01-01T00:00:00.000Z'' then Some 0
      else if s = ''1970-01-01T00:00:00.005Z'' then Some 5
      else if s = ''1970-01-01T00:00:00.010Z'' then Some 10
      else if s = ''1970-01-01T00:00:00.015Z'' then Some 15
      else if s = ''1970-01-01T00:00:00.020Z'' then Some 20
      else None)"

definition ex_platform :: platform where
  "ex_platform = \<lparr> stringify = ex_stringify, parse = ex_parse, getTime = ex_getTime \<rparr>"

text \<open>Tokens and clock readings of the examples.\<close>

definition ex_rands :: "nat \<Rightarrow> string" where
  "ex_rands n =
     (if n = 0 then ''aaaaaaaa'' else if n = 1 then ''bbbbbbbb''
      else if n = 2 then ''cccccccc'' else if n = 3 then ''dddddddd''
      else if n = 4 then ''eeeeeeee'' else if n = 5 then ''ffffffff''
      else ''gggggggg'')"

definition ticking :: "nat \<Rightarrow> string" where
  "ticking n =
     (if n = 0 then ''1970-01-01T00:00:00.000Z''
      else if n = 1 then ''1970-01-01T00:00:00.005Z''
      else if n = 2 then ''1970-01-01T00:00:00.010Z''
      else if n = 3 then ''1970-01-01T00:00:00.015Z''
      else ''1970-01-01T00:00:00.020Z'')"

definition ex_world :: "(string \<rightharpoonup> gval) \<Rightarrow> 'x \<Rightarrow> (nat \<Rightarrow> string) \<Rightarrow> 'x world" where
  "ex_world g x c =
     \<lparr> global = g, localStorage = None, rands = ex_rands, nrand = 0,
       clock = c, ticks = 0, ext = x \<rparr>"

text \<open>
  An injected storage that holds one fixed value under every key and whose writes
  never verify: \<open>set\<close> resolves to \<open>null\<close>.
\<close>

definition frozen_storage :: "jsval \<Rightarrow> 'x Storage" where
  "frozen_storage v =
     \<lparr> set_wrapped = (\<lambda>key x w. (None, w)),
       set_string = (\<lambda>key x w. (None, w)),
       get = (\<lambda>key w. (v, w)),
       delete = None \<rparr>"

definition frozen_lock :: "jsval \<Rightarrow> unit Lock" where
  "frozen_lock v = \<lparr> name = ''my-lock'', storage = frozen_storage v \<rparr>"

text \<open>
  An injected storage that keeps its values in a map of its own; its writes always
  verify.
\<close>

definition memory_storage :: "(string \<rightharpoonup> jsval) Storage" where
  "memory_storage =
     \<lparr> set_wrapped = (\<lambda>key x w. (Some x, w\<lparr>ext := (ext w)(key \<mapsto> JWrap x)\<rparr>)),
       set_string = (\<lambda>key x w. (Some x, w\<lparr>ext := (ext w)(key \<mapsto> JStr x)\<rparr>)),
       get = (\<lambda>key w. (case ext w key of Some v \<Rightarrow> v | None \<Rightarrow> JNull, w)),
       delete = Some (\<lambda>key w. w\<lparr>ext := (ext w)(key := None)\<rparr>) \<rparr>"

definition memory_lock :: "(string \<rightharpoonup> jsval) Lock" where
  "memory_lock = \<lparr> name = ''my-lock'', storage = memory_storage \<rparr>"

text \<open>
  The record with which the lock of the examples holds slot 0 since the first instant,
  and the world in which \<open>memory_lock\<close> holds it, after \<open>t\<close> readings of the clock.
\<close>

definition held_record :: MasterIdWrapped where
  "held_record =
     \<lparr> wvalue = Some \<lparr> now = ''1970-01-01T00:00:00.000Z'',
                       eid = ''aaaaaaaa'', sid = Some ''bbbbbbbb'' \<rparr>,
       nonce = ''cccccccc'' \<rparr>"

definition held_world :: "nat \<Rightarrow> (string \<rightharpoonup> jsval) world" where
  "held_world t =
     \<lparr> global = [''my-lock/ephemeral-id'' \<mapsto> GStr ''aaaaaaaa''],
       localStorage = None, rands = ex_rands, nrand = 3, clock = ticking, ticks = t,
       ext = [''my-lock/session-id'' \<mapsto> JStr ''bbbbbbbb'',
              ''my-lock/master-id/0'' \<mapsto> JWrap held_record] \<rparr>"

text \<open>
  The record that \<open>memory_lock\<close> writes when it retakes slot 0 at the fourth reading
  of the clock, and the world in which it holds the slot with that record.
\<close>

definition retaken_record :: MasterIdWrapped where
  "retaken_record =
     \<lparr> wvalue = Some \<lparr> now = ''1970-01-01T00:00:00.015Z'',
                       eid = ''aaaaaaaa'', sid = Some ''bbbbbbbb'' \<rparr>,
       nonce = ''dddddddd'' \<rparr>"

definition retaken_world :: "nat \<Rightarrow> (string \<rightharpoonup> jsval) world" where
  "retaken_world t =
     \<lparr> global = [''my-lock/ephemeral-id'' \<mapsto> GStr ''aaaaaaaa''],
       localStorage = None, rands = ex_rands, nrand = 4, clock = ticking, ticks = t,
       ext = [''my-lock/session-id'' \<mapsto> JStr ''bbbbbbbb'',
              ''my-lock/master-id/0'' \<mapsto> JWrap retaken_record] \<rparr>"

text \<open>
  A lock on the default storage, and a world in which the default storage holds the
  record above while the ambient ephemeral id is another one.
\<close>

definition my_lock :: "unit Lock" where
  "my_lock = \<lparr> name = ''my-lock'', storage = default_storage ex_platform \<rparr>"

definition foreign_world :: "unit world" where
  "foreign_world =
     ex_world [''my-lock/ephemeral-id'' \<mapsto> GStr ''zzzzzzzz'',
               ''my-lock/session-id'' \<mapsto> GStr (ex_stringify (JStr ''bbbbbbbb'')),
               ''my-lock/master-id/0'' \<mapsto> GStr (ex_stringify (JWrap held_record))]
       () ticking"


section \<open>Properties\<close>

subsection \<open>Storage keys\<close>

lemma ephemeral_path_apart:
  "getSessionIdPath lk \<noteq> getEphemeralPath lk"
  "getMasterIdPath lk i \<noteq> getEphemeralPath lk"
  "getMasterIdPath lk i \<noteq> getSessionIdPath lk"
  by (simp_all add: getSessionIdPath_def getEphemeralPath_def getMasterIdPath_def)

subsection \<open>Comparing identities\<close>

text \<open>
  C3. \<open>cmpMasterId a b\<close> is true iff \<open>a.eid\<close> equals \<open>b.eid\<close>, \<open>a.sid\<close> equals
  \<open>b.sid\<close> and \<open>a.sid\<close> is not \<open>null\<close>; two records whose \<open>sid\<close> are both \<open>null\<close>
  are never the same owner.
\<close>

theorem cmpMasterId_same_owner:
  "(cmpMasterId a b \<longleftrightarrow> eid a = eid b \<and> sid a = sid b \<and> sid a \<noteq> None)
   \<and> \<not> cmpMasterId (a\<lparr>sid := None\<rparr>) (b\<lparr>sid := None\<rparr>)"
  by (simp add: cmpMasterId_def)

subsection \<open>Release\<close>

text \<open>
  C1. The claim is that \<open>release\<close> returns \<open>false\<close> when the storage's \<open>set\<close>
  returns \<open>null\<close>. The code does the opposite: \<open>setMasterId\<close> turns a \<open>null\<close> from
  \<open>set\<close> into \<open>null\<close>, which is also the \<open>value\<close> of the wrapper that a verified
  release hands back, so \<open>release\<close> returns \<open>true\<close> in both cases.
\<close>

theorem release_true_without_verification:
  assumes "fst (set_wrapped (storage lk) (getMasterIdPath lk index)
                  \<lparr> wvalue = None, nonce = rands w (nrand w) \<rparr>
                  (w\<lparr>nrand := Suc (nrand w)\<rparr>)) = None"
  shows "fst (release lk index w) = True"
  using assms
  by (simp add: release_def setMasterId_def random8_def Let_def case_prod_beta)

theorem release_true_without_verification_witness:
  "fst (set_wrapped (storage (frozen_lock JNull)) (getMasterIdPath (frozen_lock JNull) 0)
          \<lparr> wvalue = None,
            nonce = rands (ex_world Map.empty () ticking) (nrand (ex_world Map.empty () ticking)) \<rparr>
          ((ex_world Map.empty () ticking)\<lparr>nrand := Suc (nrand (ex_world Map.empty () ticking))\<rparr>))
     = None
   \<and> fst (release (frozen_lock JNull) 0 (ex_world Map.empty () ticking)) = True"
  using release_true_without_verification [of "frozen_lock JNull" 0 "ex_world Map.empty () ticking"]
  by (simp add: frozen_lock_def frozen_storage_def)

subsection \<open>The constructor\<close>

text \<open>
  C8. Constructing a lock with the \<open>clear\<close> flag removes the entry of the ambient object
  at the lock's ephemeral-id key and nothing else: every other entry of the ambient
  object, among them the session-id key and every master-id slot of that name, and
  \<open>localStorage\<close> and the state of an injected storage are as before.
\<close>

theorem clear_deletes_only_ephemeral_id:
  assumes "new_Lock P nm True st w = (lk, w')"
  shows "global w' (getEphemeralPath lk) = None
       \<and> (\<forall>k. k \<noteq> getEphemeralPath lk \<longrightarrow> global w' k = global w k)
       \<and> global w' (getSessionIdPath lk) = global w (getSessionIdPath lk)
       \<and> (\<forall>i. global w' (getMasterIdPath lk i) = global w (getMasterIdPath lk i))
       \<and> localStorage w' = localStorage w \<and> ext w' = ext w"
  using assms ephemeral_path_apart [of lk]
  by (auto simp: new_Lock_def random8_def Let_def split: option.splits if_splits prod.splits)

theorem clear_deletes_only_ephemeral_id_witness:
  "new_Lock ex_platform (Some ''my-lock'') True None
     (ex_world [''my-lock/ephemeral-id'' \<mapsto> GStr ''aaaaaaaa'',
                ''my-lock/session-id'' \<mapsto> GStr ''sbbbbbbbb''] () ticking)
   = (my_lock, ex_world [''my-lock/session-id'' \<mapsto> GStr ''sbbbbbbbb''] () ticking)
   \<and> global (ex_world [''my-lock/session-id'' \<mapsto> GStr ''sbbbbbbbb''] () ticking)
        (getEphemeralPath my_lock) = None
   \<and> global (ex_world [''my-lock/session-id'' \<mapsto> GStr ''sbbbbbbbb''] () ticking)
        (getSessionIdPath my_lock) = Some (GStr ''sbbbbbbbb'')"
proof -
  have c: "new_Lock ex_platform (Some ''my-lock'') True None
     (ex_world [''my-lock/ephemeral-id'' \<mapsto> GStr ''aaaaaaaa'',
                ''my-lock/session-id'' \<mapsto> GStr ''sbbbbbbbb''] () ticking)
   = (my_lock, ex_world [''my-lock/session-id'' \<mapsto> GStr ''sbbbbbbbb''] () ticking)"
    by (simp add: new_Lock_def my_lock_def ex_world_def getEphemeralPath_def fun_upd_twist)
  show ?thesis
    using c clear_deletes_only_ephemeral_id [OF c]
    by (simp add: ex_world_def getSessionIdPath_def my_lock_def)
qed

text \<open>
  C10. A lock constructed with the empty string as its name is constructed as one with
  no name: its name is the next token of \<open>random(8)\<close>. Two such locks whose tokens
  differ (tokens of the requested length) address disjoint keys.
\<close>

theorem empty_name_is_anonymous:
  assumes "new_Lock P (Some []) c1 s1 w = (l1, w1)"
      and "new_Lock P (Some []) c2 s2 w' = (l2, w2)"
      and "length (rands w (nrand w)) = length (rands w' (nrand w'))"
      and "rands w (nrand w) \<noteq> rands w' (nrand w')"
  shows "new_Lock P (Some []) c1 s1 w = new_Lock P None c1 s1 w
       \<and> name l1 = rands w (nrand w) \<and> name l2 = rands w' (nrand w')
       \<and> keys l1 \<inter> keys l2 = {}"
proof -
  have n: "name l1 = rands w (nrand w)" "name l2 = rands w' (nrand w')"
    using assms(1,2)
    by (auto simp: new_Lock_def random8_def Let_def split: if_splits)
  have "keys l1 \<inter> keys l2 = {}"
    using assms(3,4) unfolding n [symmetric]
    by (auto simp: keys_def getSessionIdPath_def getEphemeralPath_def getMasterIdPath_def)
  moreover have "new_Lock P (Some []) c1 s1 w = new_Lock P None c1 s1 w"
    by (simp add: new_Lock_def)
  ultimately show ?thesis using n by simp
qed

theorem empty_name_is_anonymous_witness:
  "new_Lock ex_platform (Some []) False None (ex_world Map.empty () ticking)
     = (\<lparr>name = ''aaaaaaaa'', storage = default_storage ex_platform\<rparr>,
        (ex_world Map.empty () ticking)\<lparr>nrand := 1\<rparr>)
   \<and> new_Lock ex_platform (Some []) False None ((ex_world Map.empty () ticking)\<lparr>nrand := 1\<rparr>)
     = (\<lparr>name = ''bbbbbbbb'', storage = default_storage ex_platform\<rparr>,
        (ex_world Map.empty () ticking)\<lparr>nrand := 2\<rparr>)
   \<and> keys \<lparr>name = ''aaaaaaaa'', storage = default_storage ex_platform :: unit Storage\<rparr>
       \<inter> keys \<lparr>name = ''bbbbbbbb'', storage = default_storage ex_platform :: unit Storage\<rparr>
     = {}"
proof -
  have a: "new_Lock ex_platform (Some []) False None (ex_world Map.empty () ticking)
     = (\<lparr>name = ''aaaaaaaa'', storage = default_storage ex_platform\<rparr>,
        (ex_world Map.empty () ticking)\<lparr>nrand := 1\<rparr>)"
    by (simp add: new_Lock_def random8_def ex_world_def ex_rands_def)
  have b: "new_Lock ex_platform (Some []) False None ((ex_world Map.empty () ticking)\<lparr>nrand := 1\<rparr>)
     = (\<lparr>name = ''bbbbbbbb'', storage = default_storage ex_platform\<rparr>,
        (ex_world Map.empty () ticking)\<lparr>nrand := 2\<rparr>)"
    by (simp add: new_Lock_def random8_def ex_world_def ex_rands_def)
  show ?thesis
    using a b empty_name_is_anonymous [OF a b]
    by (simp add: ex_world_def ex_rands_def)
qed

subsection \<open>One pass of \<open>lockAge\<close>\<close>

lemmas lock_defs =
  getMasterId_def setMasterId_def newMasterId_def getEphemeralId_def setEphemeralId_def
  getSessionId_def setSessionId_def random8_def toISOString_now_def
  getMasterIdPath_def getSessionIdPath_def getEphemeralPath_def number_to_string_def

lemmas example_defs =
  memory_lock_def memory_storage_def frozen_lock_def frozen_storage_def
  ex_world_def held_world_def held_record_def
  retaken_world_def retaken_record_def ex_rands_def ticking_def ex_platform_def ex_getTime_def
  date_ms_def to_double_def

lemma age_positive: "0 < age ms"
  by (simp add: age_def split: option.splits)

lemma lockAge_pass:
  assumes "getMasterId lk index force w = (Some g, w1)" and "newMasterId lk w1 = (m, w2)"
  shows "lockAge (Suc k) P lk index expire force w =
           (if expired expire (result_ms P g m) then lockAge k P lk index expire True w2
            else if cmpMasterId g m then Some (Some (age (result_ms P g m)), w2)
            else Some (None, w2))"
  using assms by simp

lemma lockAge_no_owner:
  assumes "getMasterId lk index force w = (None, w1)"
  shows "lockAge (Suc k) P lk index expire force w = Some (None, w1)"
  using assms by simp

lemma lockAge_0: "lockAge 0 P lk index expire force w = None"
  by simp

declare lockAge.simps [simp del]

lemma lockAge_positive:
  "lockAge k P lk index expire force w = Some (Some r, w') \<Longrightarrow> 0 < r"
proof (induction k arbitrary: force w)
  case 0
  then show ?case by (simp add: lockAge_0)
next
  case (Suc k)
  obtain go w1 where g: "getMasterId lk index force w = (go, w1)"
    by (cases "getMasterId lk index force w")
  show ?case
  proof (cases go)
    case None
    with g Suc.prems show ?thesis by (simp add: lockAge_no_owner)
  next
    case (Some g')
    obtain m w2 where m: "newMasterId lk w1 = (m, w2)"
      by (cases "newMasterId lk w1")
    from g Some m Suc.prems Suc.IH [of True w2] show ?thesis
      by (auto simp: lockAge_pass age_positive simp del: lockAge.simps split: if_splits)
  qed
qed

subsection \<open>Acquire\<close>

lemma retry_expired:
  assumes "getMasterId lk index force w = (Some g, w1)" and "newMasterId lk w1 = (m, w2)"
  shows "retry P lk index expire (force, w) =
           (if expired expire (result_ms P g m) then Some (True, w2) else None)"
  using assms by (simp add: retry_def)

lemma retry_no_owner:
  assumes "getMasterId lk index force w = (None, w1)"
  shows "retry P lk index expire (force, w) = None"
  using assms by (simp add: retry_def)

lemma lockAge_number:
  "lockAge k P lk index expire force w = Some (Some r, w') \<longleftrightarrow>
     (\<exists>n<k. \<exists>f w0 g w1 m.
        retries n P lk index expire (force, w) = Some (f, w0) \<and>
        getMasterId lk index f w0 = (Some g, w1) \<and> newMasterId lk w1 = (m, w') \<and>
        \<not> expired expire (result_ms P g m) \<and> cmpMasterId g m \<and>
        r = age (result_ms P g m))"
  (is "?L k force w \<longleftrightarrow> ?R k force w")
proof (induction k arbitrary: force w)
  case 0
  show ?case by (simp add: lockAge_0)
next
  case (Suc k)
  obtain go w1 where g: "getMasterId lk index force w = (go, w1)"
    by (cases "getMasterId lk index force w")
  show ?case
  proof (cases go)
    case None
    with g have l: "\<not> ?L (Suc k) force w"
      by (simp add: lockAge_no_owner)
    have "\<not> ?R (Suc k) force w"
    proof
      assume "?R (Suc k) force w"
      then obtain n f w0 g' w1' m where
        r: "retries n P lk index expire (force, w) = Some (f, w0)"
           "getMasterId lk index f w0 = (Some g', w1')"
        by blast
      show False
      proof (cases n)
        case 0
        with r g None show False by simp
      next
        case (Suc n')
        with r g None show False by (simp add: retry_no_owner)
      qed
    qed
    with l show ?thesis by blast
  next
    case (Some g')
    with g have g': "getMasterId lk index force w = (Some g', w1)"
      by simp
    obtain m w2 where m: "newMasterId lk w1 = (m, w2)"
      by (cases "newMasterId lk w1")
    show ?thesis
    proof (cases "expired expire (result_ms P g' m)")
      case True
      then have l: "?L (Suc k) force w \<longleftrightarrow> ?L k True w2"
        by (simp add: lockAge_pass [OF g' m])
      from True have s: "retry P lk index expire (force, w) = Some (True, w2)"
        by (simp add: retry_expired [OF g' m])
      have "?R (Suc k) force w \<longleftrightarrow> ?R k True w2"
      proof
        assume "?R (Suc k) force w"
        then obtain n f w0 g0 w10 m0 where
          r: "n < Suc k" "retries n P lk index expire (force, w) = Some (f, w0)"
             "getMasterId lk index f w0 = (Some g0, w10)" "newMasterId lk w10 = (m0, w')"
             "\<not> expired expire (result_ms P g0 m0)" "cmpMasterId g0 m0"
             "r = age (result_ms P g0 m0)"
          by blast
        show "?R k True w2"
        proof (cases n)
          case 0
          with r(2,3,4,5) g' m True show ?thesis by simp
        next
          case (Suc n')
          with r s have "n' < k" "retries n' P lk index expire (True, w2) = Some (f, w0)"
            by simp_all
          with r(3-) show ?thesis by blast
        qed
      next
        assume "?R k True w2"
        then obtain n f w0 g0 w10 m0 where
          r: "n < k" "retries n P lk index expire (True, w2) = Some (f, w0)"
             "getMasterId lk index f w0 = (Some g0, w10)" "newMasterId lk w10 = (m0, w')"
             "\<not> expired expire (result_ms P g0 m0)" "cmpMasterId g0 m0"
             "r = age (result_ms P g0 m0)"
          by blast
        from r(1,2) s have "Suc n < Suc k"
          "retries (Suc n) P lk index expire (force, w) = Some (f, w0)"
          by simp_all
        with r(3-) show "?R (Suc k) force w" by blast
      qed
      with l Suc.IH [of True w2] show ?thesis by simp
    next
      case False
      then have l: "?L (Suc k) force w \<longleftrightarrow> cmpMasterId g' m \<and> r = age (result_ms P g' m) \<and> w' = w2"
        by (auto simp: lockAge_pass [OF g' m])
      from False have s: "retry P lk index expire (force, w) = None"
        by (simp add: retry_expired [OF g' m])
      have "?R (Suc k) force w \<longleftrightarrow> cmpMasterId g' m \<and> r = age (result_ms P g' m) \<and> w' = w2"
      proof
        assume "?R (Suc k) force w"
        then obtain n f w0 g0 w10 m0 where
          r: "retries n P lk index expire (force, w) = Some (f, w0)"
             "getMasterId lk index f w0 = (Some g0, w10)" "newMasterId lk w10 = (m0, w')"
             "cmpMasterId g0 m0" "r = age (result_ms P g0 m0)"
          by blast
        from r(1) s have "n = 0"
          by (cases n) simp_all
        with r g' m show "cmpMasterId g' m \<and> r = age (result_ms P g' m) \<and> w' = w2"
          by simp
      next
        assume a: "cmpMasterId g' m \<and> r = age (result_ms P g' m) \<and> w' = w2"
        have "retries 0 P lk index expire (force, w) = Some (force, w)"
          by simp
        with a g' m False show "?R (Suc k) force w"
          by blast
      qed
      with l show ?thesis by simp
    qed
  qed
qed

lemma to_double_exact: "\<bar>d\<bar> \<le> 9007199254740992 \<Longrightarrow> to_double d = d"
  by (simp add: to_double_def)

text \<open>
  C4. \<open>acquire\<close> returns a number exactly when, after some forced retries, a pass
  finds an owner record that has not expired and compares equal to the candidate of
  that pass; the number is then \<open>candidate.now - owner.now\<close> of that pass in
  milliseconds (the difference of the two doubles) if that is strictly positive and 1
  otherwise (also when a timestamp does not parse). So every number that \<open>acquire\<close>
  returns is strictly positive.
\<close>

theorem acquire_age_positive:
  "(acquire k P lk index expire w = Some (Some r, w') \<longleftrightarrow>
      (\<exists>n<k. \<exists>f w0 g w1 m.
          retries n P lk index expire (False, w) = Some (f, w0) \<and>
          getMasterId lk index f w0 = (Some g, w1) \<and> newMasterId lk w1 = (m, w') \<and>
          \<not> expired expire (result_ms P g m) \<and> cmpMasterId g m \<and>
          r = (case (date_ms P (now m), date_ms P (now g)) of
                 (Some master_ms, Some global_ms) \<Rightarrow>
                    if 0 < to_double (master_ms - global_ms)
                    then to_double (master_ms - global_ms) else 1
               | _ \<Rightarrow> 1)))
   \<and> (acquire k P lk index expire w = Some (Some r, w') \<longrightarrow> 0 < r)"
proof -
  have "age (result_ms P g m) =
      (case (date_ms P (now m), date_ms P (now g)) of
         (Some master_ms, Some global_ms) \<Rightarrow>
            if 0 < to_double (master_ms - global_ms)
            then to_double (master_ms - global_ms) else 1
       | _ \<Rightarrow> 1)" for g m
    by (simp add: age_def result_ms_def split: option.splits)
  then show ?thesis
    using lockAge_number [of k P lk index expire False w r w']
      lockAge_positive [of k P lk index expire False w r w']
    by (simp add: acquire_def)
qed

lemma memory_lock_retakes:
  "acquire 2 ex_platform memory_lock 0 (Some 5) (held_world 2) = Some (Some 5, retaken_world 5)"
  by (simp add: acquire_def lockAge.simps eval_nat_numeral lock_defs example_defs
        result_ms_def expired_def cmpMasterId_def age_def)

lemma memory_lock_retry:
  "retries 1 ex_platform memory_lock 0 (Some 5) (False, held_world 2) = Some (True, held_world 3)"
  by (simp add: retry_def eval_nat_numeral lock_defs example_defs result_ms_def expired_def)

theorem acquire_age_positive_witness:
  "acquire 2 ex_platform memory_lock 0 (Some 5) (held_world 2) = Some (Some 5, retaken_world 5)
   \<and> (\<exists>n<2. \<exists>f w0 g w1 m.
          retries n ex_platform memory_lock 0 (Some 5) (False, held_world 2) = Some (f, w0) \<and>
          getMasterId memory_lock 0 f w0 = (Some g, w1) \<and>
          newMasterId memory_lock w1 = (m, retaken_world 5) \<and>
          \<not> expired (Some 5) (result_ms ex_platform g m) \<and> cmpMasterId g m \<and>
          5 = (case (date_ms ex_platform (now m), date_ms ex_platform (now g)) of
                 (Some master_ms, Some global_ms) \<Rightarrow>
                    if 0 < to_double (master_ms - global_ms)
                    then to_double (master_ms - global_ms) else 1
               | _ \<Rightarrow> 1))
   \<and> retries 1 ex_platform memory_lock 0 (Some 5) (False, held_world 2)
       = Some (True, held_world 3)
   \<and> (0::int) < 5"
  using memory_lock_retakes memory_lock_retry
    acquire_age_positive [of 2 ex_platform memory_lock 0 "Some 5" "held_world 2" 5 "retaken_world 5"]
  by blast

text \<open>
  C5. When no owner is stored at the slot (or the pass is forced) and the storage's
  \<open>set\<close> of the fresh owner record returns \<open>null\<close>, \<open>lockAge\<close>, and so \<open>acquire\<close>,
  returns \<open>null\<close>.
\<close>

theorem acquire_null_on_failed_write:
  assumes "get (storage lk) (getMasterIdPath lk index) w = (wid, w1)"
      and "force \<or> (case wid of JWrap x \<Rightarrow> wvalue x | _ \<Rightarrow> None) = None"
      and "newMasterId lk w1 = (m, w2)"
      and "set_wrapped (storage lk) (getMasterIdPath lk index)
             \<lparr> wvalue = Some m, nonce = rands w2 (nrand w2) \<rparr>
             (w2\<lparr>nrand := Suc (nrand w2)\<rparr>) = (None, w3)"
  shows "lockAge (Suc k) P lk index expire force w = Some (None, w3)
       \<and> (\<not> force \<longrightarrow> acquire (Suc k) P lk index expire w = Some (None, w3))"
proof -
  have "getMasterId lk index force w = (None, w3)"
    using assms
    by (auto simp: getMasterId_def setMasterId_def random8_def Let_def split: option.splits)
  then show ?thesis
    by (auto simp: acquire_def lockAge_no_owner)
qed

theorem acquire_null_on_failed_write_witness:
  "get (storage (frozen_lock JNull)) (getMasterIdPath (frozen_lock JNull) 0)
     (ex_world Map.empty () ticking) = (JNull, ex_world Map.empty () ticking)
   \<and> acquire 1 ex_platform (frozen_lock JNull) 0 None (ex_world Map.empty () ticking) =
       Some (None, (ex_world [''my-lock/ephemeral-id'' \<mapsto> GStr ''aaaaaaaa''] () ticking)
                     \<lparr>nrand := 3, ticks := 1\<rparr>)"
proof -
  let ?w = "ex_world Map.empty () ticking"
  let ?w2 = "(ex_world [''my-lock/ephemeral-id'' \<mapsto> GStr ''aaaaaaaa''] () ticking)\<lparr>nrand := 2, ticks := 1\<rparr>"
  let ?w3 = "(ex_world [''my-lock/ephemeral-id'' \<mapsto> GStr ''aaaaaaaa''] () ticking)\<lparr>nrand := 3, ticks := 1\<rparr>"
  have a: "get (storage (frozen_lock JNull)) (getMasterIdPath (frozen_lock JNull) 0) ?w = (JNull, ?w)"
    by (simp add: example_defs)
  have b: "False \<or> (case JNull of JWrap x \<Rightarrow> wvalue x | _ \<Rightarrow> None) = None"
    by simp
  have c: "newMasterId (frozen_lock JNull) ?w =
             (\<lparr> now = ''1970-01-01T00:00:00.000Z'', eid = ''aaaaaaaa'', sid = None \<rparr>, ?w2)"
    by (simp add: lock_defs example_defs)
  have d: "set_wrapped (storage (frozen_lock JNull)) (getMasterIdPath (frozen_lock JNull) 0)
             \<lparr> wvalue = Some \<lparr> now = ''1970-01-01T00:00:00.000Z'', eid = ''aaaaaaaa'', sid = None \<rparr>,
               nonce = rands ?w2 (nrand ?w2) \<rparr>
             (?w2\<lparr>nrand := Suc (nrand ?w2)\<rparr>) = (None, ?w3)"
    by (simp add: example_defs)
  show ?thesis
    using a acquire_null_on_failed_write [OF a b c d, of 0 ex_platform None]
    by simp
qed

subsection \<open>Forced retries\<close>

text \<open>
  C2, as claimed: \<open>lockAge\<close> makes at most one forced retry. It fails: with
  \<open>expire = 0\<close> and a clock that advances between two readings, the call of
  \<open>acquire\<close> and one forced retry (two nested calls) do not finish the run; the record
  that the forced pass writes is itself older than \<open>expire\<close> when the candidate is
  minted. Here the third call ends the run, since the clock of the example stands still
  from then on.
\<close>

theorem lockAge_second_forced_retry:
  "acquire 2 ex_platform memory_lock 0 (Some 0) (ex_world Map.empty Map.empty ticking) = None
   \<and> map_option fst
        (acquire 3 ex_platform memory_lock 0 (Some 0) (ex_world Map.empty Map.empty ticking))
       = Some (Some 1)"
  by (simp add: acquire_def lockAge.simps eval_nat_numeral lock_defs example_defs
        result_ms_def expired_def cmpMasterId_def age_def)

lemma lockAge_settled_pass:
  assumes "pass_settles P lk index expire force w"
  shows "lockAge (Suc k) P lk index expire force w \<noteq> None"
  using assms
  by (auto simp: pass_settles_def lockAge.simps Let_def split: prod.splits option.splits)

text \<open>
  C2, amended. \<open>lockAge\<close> retries whenever the owner record and the candidate are more
  than \<open>expire\<close> apart, in a forced pass too. If the forced pass that follows the
  first pass settles (its write fails, or the record it wrote and its candidate are at
  most \<open>expire\<close> apart, or no \<open>expire\<close> was given), the run returns with at most one
  forced retry.
\<close>

theorem lockAge_one_forced_retry:
  assumes "pass_settles P lk index expire True (after_pass lk index force w)"
  shows "lockAge (Suc (Suc k)) P lk index expire force w \<noteq> None"
proof (cases "pass_settles P lk index expire force w")
  case True
  then show ?thesis by (rule lockAge_settled_pass)
next
  case False
  then obtain g w1 where g: "getMasterId lk index force w = (Some g, w1)"
    by (auto simp: pass_settles_def split: prod.splits option.splits)
  obtain m w2 where m: "newMasterId lk w1 = (m, w2)"
    by (cases "newMasterId lk w1")
  from False g m have e: "expired expire (result_ms P g m)"
    by (simp add: pass_settles_def)
  from g m have a: "after_pass lk index force w = w2"
    by (simp add: after_pass_def)
  from assms a have "lockAge (Suc k) P lk index expire True w2 \<noteq> None"
    by (simp add: lockAge_settled_pass)
  with g m e show ?thesis
    by (simp add: lockAge_pass)
qed

theorem lockAge_one_forced_retry_witness:
  "pass_settles ex_platform memory_lock 0 (Some 5) True (after_pass memory_lock 0 False (held_world 2))
   \<and> \<not> pass_settles ex_platform memory_lock 0 (Some 5) False (held_world 2)
   \<and> lockAge 2 ex_platform memory_lock 0 (Some 5) False (held_world 2) \<noteq> None"
proof -
  have a: "pass_settles ex_platform memory_lock 0 (Some 5) True (after_pass memory_lock 0 False (held_world 2))"
    by (simp add: pass_settles_def after_pass_def lock_defs example_defs
          result_ms_def expired_def)
  have b: "\<not> pass_settles ex_platform memory_lock 0 (Some 5) False (held_world 2)"
    by (simp add: pass_settles_def lock_defs example_defs result_ms_def expired_def)
  show ?thesis
    using a b lockAge_one_forced_retry [OF a, of 0] by (simp add: numeral_2_eq_2)
qed

subsection \<open>The default storage\<close>

lemma default_get_stored:
  "default_get P key w =
     (case stored w key of
        None \<Rightarrow> JNull
      | Some s \<Rightarrow> (case parse P s of Some v \<Rightarrow> v | None \<Rightarrow> JStr s), w)"
  by (auto simp: default_get_def stored_def split: option.splits gval.splits)

lemma stored_put [simp]:
  "stored (put key s w) k = (if k = key then Some s else stored w k)"
  by (simp add: stored_def put_def split: option.splits)

lemma put_fields [simp]:
  "rands (put key s w) = rands w" "nrand (put key s w) = nrand w"
  "clock (put key s w) = clock w" "ticks (put key s w) = ticks w"
  "ext (put key s w) = ext w"
  by (simp_all add: put_def split: option.splits)

lemma global_put: "k \<noteq> key \<Longrightarrow> global (put key s w) k = global w k"
  by (simp add: put_def split: option.splits)

lemma stored_fields [simp]:
  "stored (w\<lparr>nrand := n\<rparr>) k = stored w k" "stored (w\<lparr>ticks := t\<rparr>) k = stored w k"
  by (simp_all add: stored_def split: option.splits)

lemma stored_global_upd:
  "k \<noteq> key \<Longrightarrow> stored (w\<lparr>global := (global w)(key := x)\<rparr>) k = stored w k"
  by (simp add: stored_def split: option.splits)

lemma default_set_put:
  "default_set P key v w =
     (if compare P (fst (default_get P key (put key (stringify P v) w))) v then v else JNull,
      put key (stringify P v) w)"
  by (simp add: default_set_def put_def default_get_stored case_prod_beta Let_def
           split: option.splits)

lemma default_set_roundtrip:
  "json_roundtrip P \<Longrightarrow> default_set P key v w = (v, put key (stringify P v) w)"
  by (simp add: default_set_put default_get_stored json_roundtrip_def compare_def)


lemma getEphemeralId_default:
  "getEphemeralId lk w =
     (case global w (getEphemeralPath lk) of
        Some (GStr i) \<Rightarrow>
          if i \<noteq> [] then (i, w)
          else (rands w (nrand w),
                w\<lparr>nrand := Suc (nrand w),
                   global := (global w)(getEphemeralPath lk \<mapsto> GStr (rands w (nrand w)))\<rparr>)
      | _ \<Rightarrow> (rands w (nrand w),
               w\<lparr>nrand := Suc (nrand w),
                  global := (global w)(getEphemeralPath lk \<mapsto> GStr (rands w (nrand w)))\<rparr>))"
  by (simp add: getEphemeralId_def setEphemeralId_def random8_def split: option.splits gval.splits)

lemma getEphemeralId_frame:
  assumes "getEphemeralId lk w = (e, w')"
  shows "ticks w' = ticks w" "clock w' = clock w" "rands w' = rands w"
    "localStorage w' = localStorage w"
    "k \<noteq> getEphemeralPath lk \<Longrightarrow> global w' k = global w k"
    "k \<noteq> getEphemeralPath lk \<Longrightarrow> stored w' k = stored w k"
  using assms
  by (auto simp: getEphemeralId_default stored_def split: option.splits gval.splits if_splits)

lemma getEphemeralId_established:
  assumes "getEphemeralId lk w = (e, w')" and "tokens w"
  shows "global w' (getEphemeralPath lk) = Some (GStr e)" "e \<noteq> []"
  using assms
  by (auto simp: getEphemeralId_default tokens_def split: option.splits gval.splits if_splits)

lemma getSessionId_world:
  assumes "storage lk = default_storage P"
  shows "snd (getSessionId lk w) = w
       \<or> snd (getSessionId lk w) =
            put (getSessionIdPath lk) (stringify P (JStr (rands w (nrand w))))
              (w\<lparr>nrand := Suc (nrand w)\<rparr>)"
  using assms
  by (simp add: getSessionId_def setSessionId_def random8_def default_storage_def
        default_set_put default_get_stored Let_def split: option.splits jsval.splits)

lemma getSessionId_frame:
  assumes "storage lk = default_storage P" and "getSessionId lk w = (s, w')"
  shows "ticks w' = ticks w" "clock w' = clock w" "rands w' = rands w"
    "k \<noteq> getSessionIdPath lk \<Longrightarrow> global w' k = global w k"
    "k \<noteq> getSessionIdPath lk \<Longrightarrow> stored w' k = stored w k"
  using getSessionId_world [OF assms(1), of w] assms(2)
  by (auto simp: global_put)

lemma newMasterId_frame:
  assumes "storage lk = default_storage P" and "newMasterId lk w = (m, w')"
  shows "now m = clock w (ticks w)" "ticks w' = Suc (ticks w)" "clock w' = clock w"
    "rands w' = rands w"
    "stored w' (getMasterIdPath lk i) = stored w (getMasterIdPath lk i)"
proof -
  obtain e w1 where e: "getEphemeralId lk (w\<lparr>ticks := Suc (ticks w)\<rparr>) = (e, w1)"
    by (cases "getEphemeralId lk (w\<lparr>ticks := Suc (ticks w)\<rparr>)")
  obtain s w2 where s: "getSessionId lk w1 = (s, w2)"
    by (cases "getSessionId lk w1")
  from assms(2) e s have m: "m = \<lparr> now = clock w (ticks w), eid = e, sid = s \<rparr>" "w' = w2"
    by (simp_all add: newMasterId_def toISOString_now_def)
  note fe = getEphemeralId_frame [OF e]
  note fs = getSessionId_frame [OF assms(1) s]
  show "now m = clock w (ticks w)" using m by simp
  show "ticks w' = Suc (ticks w)" using m fe fs by simp
  show "clock w' = clock w" using m fe fs by simp
  show "rands w' = rands w" using m fe fs by simp
  show "stored w' (getMasterIdPath lk i) = stored w (getMasterIdPath lk i)"
    using m fe(6) [of "getMasterIdPath lk i"] fs(5) [of "getMasterIdPath lk i"]
      ephemeral_path_apart(2,3) [of lk i]
    by simp
qed

lemma dec_enc: "dec (enc s @ r) = (s, r)"
proof -
  have "takeWhile (\<lambda>c. c = CHR ''1'') (replicate n (CHR ''1'') @ CHR ''0'' # ys)
          = replicate n (CHR ''1'')" for n ys
    by (induction n) simp_all
  then have "takeWhile (\<lambda>c. c = CHR ''1'') (enc s @ r) = replicate (length s) (CHR ''1'')"
    by (simp add: enc_def)
  then show ?thesis
    by (simp add: dec_def enc_def Let_def)
qed

lemma ex_platform_roundtrip: "json_roundtrip ex_platform"
proof -
  have "ex_parse (ex_stringify v) = Some v" for v
  proof (cases v)
    case (JWrap x)
    obtain o' n where x: "x = \<lparr> wvalue = o', nonce = n \<rparr>"
      by (cases x)
    show ?thesis
    proof (cases o')
      case None
      with JWrap x show ?thesis by (simp add: ex_parse_def ex_stringify_def)
    next
      case (Some m)
      obtain t e i where m: "m = \<lparr> now = t, eid = e, sid = i \<rparr>"
        by (cases m)
      from JWrap x Some m show ?thesis
        by (cases i) (simp_all add: ex_parse_def ex_stringify_def dec_enc)
    qed
  qed (simp_all add: ex_parse_def ex_stringify_def)
  then show ?thesis
    by (simp add: json_roundtrip_def ex_platform_def)
qed

lemma default_storage_get: "get (default_storage P) = default_get P"
  by (simp add: default_storage_def)

lemma default_get_world: "snd (default_get P key w) = w"
  by (simp add: default_get_stored)

subsection \<open>A mismatching owner\<close>

text \<open>
  C7. When the slot holds an owner record, that record has not expired and it does not
  compare equal to the caller's candidate, \<open>acquire\<close> returns \<open>null\<close>; the run reads
  the slot and mints the candidate and does nothing else, and with the default storage
  every master-id slot of the lock holds the text it held before.
\<close>

theorem acquire_mismatch_leaves_slot:
  assumes "get (storage lk) (getMasterIdPath lk index) w = (JWrap x, w1)"
      and "wvalue x = Some g"
      and "newMasterId lk w1 = (m, w2)"
      and "\<not> expired expire (result_ms P g m)"
      and "\<not> cmpMasterId g m"
  shows "acquire (Suc k) P lk index expire w = Some (None, w2)
       \<and> (storage lk = default_storage P \<longrightarrow>
            (\<forall>i. stored w2 (getMasterIdPath lk i) = stored w (getMasterIdPath lk i))
            \<and> fst (default_get P (getMasterIdPath lk index) w2) = JWrap x)"
proof -
  from assms(1,2) have g: "getMasterId lk index False w = (Some g, w1)"
    by (simp add: getMasterId_def)
  from assms(4,5) have a: "acquire (Suc k) P lk index expire w = Some (None, w2)"
    by (simp add: acquire_def lockAge_pass [OF g assms(3)])
  have "(\<forall>i. stored w2 (getMasterIdPath lk i) = stored w (getMasterIdPath lk i))
      \<and> fst (default_get P (getMasterIdPath lk index) w2) = JWrap x"
    if d: "storage lk = default_storage P"
  proof -
    from assms(1) d have e: "default_get P (getMasterIdPath lk index) w = (JWrap x, w1)"
      by (simp add: default_storage_get)
    from e default_get_world [of P "getMasterIdPath lk index" w] have w1: "w1 = w"
      by simp
    from e have x: "fst (default_get P (getMasterIdPath lk index) w) = JWrap x"
      by simp
    have s: "stored w2 (getMasterIdPath lk i) = stored w (getMasterIdPath lk i)" for i
      using newMasterId_frame(5) [OF d assms(3)] w1 by simp
    with x show ?thesis
      by (simp add: default_get_stored)
  qed
  with a show ?thesis by simp
qed

lemma ex_parse_stringify: "parse ex_platform (ex_stringify v) = Some v"
  using ex_platform_roundtrip by (simp add: json_roundtrip_def ex_platform_def)

lemma foreign_world_slot:
  "get (storage my_lock) (getMasterIdPath my_lock 0) foreign_world
     = (JWrap held_record, foreign_world)"
  by (simp add: my_lock_def default_storage_get default_get_stored stored_def
        foreign_world_def ex_world_def getMasterIdPath_def number_to_string_def
        ex_parse_stringify)

lemma foreign_world_candidate:
  "newMasterId my_lock foreign_world =
     (\<lparr> now = ''1970-01-01T00:00:00.000Z'', eid = ''zzzzzzzz'', sid = Some ''bbbbbbbb'' \<rparr>,
      foreign_world\<lparr>ticks := 1\<rparr>)"
  by (simp add: newMasterId_def toISOString_now_def getEphemeralId_def getSessionId_def
        getEphemeralPath_def getSessionIdPath_def
        my_lock_def default_storage_get default_get_stored stored_def
        foreign_world_def ex_world_def ticking_def ex_parse_stringify)

theorem acquire_mismatch_leaves_slot_witness:
  "get (storage my_lock) (getMasterIdPath my_lock 0) foreign_world
     = (JWrap held_record, foreign_world)
   \<and> acquire 1 ex_platform my_lock 0 None foreign_world = Some (None, foreign_world\<lparr>ticks := 1\<rparr>)
   \<and> storage my_lock = default_storage ex_platform
   \<and> fst (default_get ex_platform (getMasterIdPath my_lock 0) (foreign_world\<lparr>ticks := 1\<rparr>))
       = JWrap held_record"
proof -
  have g: "wvalue held_record = Some \<lparr> now = ''1970-01-01T00:00:00.000Z'',
                       eid = ''aaaaaaaa'', sid = Some ''bbbbbbbb'' \<rparr>"
    by (simp add: held_record_def)
  have e: "\<not> expired None (result_ms ex_platform
       \<lparr> now = ''1970-01-01T00:00:00.000Z'', eid = ''aaaaaaaa'', sid = Some ''bbbbbbbb'' \<rparr>
       \<lparr> now = ''1970-01-01T00:00:00.000Z'', eid = ''zzzzzzzz'', sid = Some ''bbbbbbbb'' \<rparr>)"
    by (simp add: expired_def)
  have c: "\<not> cmpMasterId
       \<lparr> now = ''1970-01-01T00:00:00.000Z'', eid = ''aaaaaaaa'', sid = Some ''bbbbbbbb'' \<rparr>
       \<lparr> now = ''1970-01-01T00:00:00.000Z'', eid = ''zzzzzzzz'', sid = Some ''bbbbbbbb'' \<rparr>"
    by (simp add: cmpMasterId_def)
  have d: "storage my_lock = default_storage ex_platform"
    by (simp add: my_lock_def)
  show ?thesis
    using foreign_world_slot d
      acquire_mismatch_leaves_slot [OF foreign_world_slot g foreign_world_candidate e c, of 0]
    by simp
qed


subsection \<open>Storages that keep what is written\<close>

lemma keeps_get:
  assumes "keeps lk"
  shows "untouched lk w (snd (get (storage lk) key w))"
    and "reads lk (snd (get (storage lk) key w)) k = reads lk w k"
  using assms by (simp_all add: keeps_def)

lemma keeps_set_wrapped:
  assumes "keeps lk" and "key \<noteq> getEphemeralPath lk"
  shows "fst (set_wrapped (storage lk) key v w) = Some v"
    and "untouched lk w (snd (set_wrapped (storage lk) key v w))"
    and "reads lk (snd (set_wrapped (storage lk) key v w)) k =
           (if k = key then JWrap v else reads lk w k)"
  using assms by (simp_all add: keeps_def)

lemma keeps_set_string:
  assumes "keeps lk" and "key \<noteq> getEphemeralPath lk"
  shows "fst (set_string (storage lk) key v w) = Some v"
    and "untouched lk w (snd (set_string (storage lk) key v w))"
    and "reads lk (snd (set_string (storage lk) key v w)) k =
           (if k = key then JStr v else reads lk w k)"
  using assms by (simp_all add: keeps_def)

lemma keeps_reads:
  assumes "keeps lk"
  shows "reads lk (w\<lparr>nrand := n\<rparr>) key = reads lk w key"
    and "reads lk (w\<lparr>ticks := t\<rparr>) key = reads lk w key"
    and "key \<noteq> getEphemeralPath lk \<Longrightarrow>
           reads lk (w\<lparr>global := (global w)(getEphemeralPath lk \<mapsto> x)\<rparr>) key = reads lk w key"
  using assms by (simp_all add: keeps_def)

lemma reads_getEphemeralId:
  assumes k: "keeps lk" and e: "getEphemeralId lk w = (e, w')" and n: "key \<noteq> getEphemeralPath lk"
  shows "reads lk w' key = reads lk w key"
proof -
  let ?E = "getEphemeralPath lk"
  let ?w = "w\<lparr>nrand := Suc (nrand w)\<rparr>"
  have "w' = w \<or> w' = ?w\<lparr>global := (global ?w)(?E \<mapsto> GStr (rands w (nrand w)))\<rparr>"
    using e by (auto simp: getEphemeralId_default split: option.splits gval.splits if_splits)
  then show ?thesis
    using keeps_reads(3) [OF k n, where w = ?w] keeps_reads(1) [OF k, where w = w] by auto
qed

lemma getSessionId_keeps:
  assumes k: "keeps lk" and t: "tokens w" and s: "getSessionId lk w = (s, w')"
  shows "(\<exists>i. s = Some i \<and> i \<noteq> [] \<and> reads lk w' (getSessionIdPath lk) = JStr i) \<and>
      rands w' = rands w \<and> clock w' = clock w \<and> ticks w' = ticks w \<and>
      global w' (getEphemeralPath lk) = global w (getEphemeralPath lk) \<and>
      (\<forall>key. key \<noteq> getSessionIdPath lk \<longrightarrow> reads lk w' key = reads lk w key)"
proof -
  let ?S = "getSessionIdPath lk"
  let ?w1 = "snd (get (storage lk) ?S w)"
  let ?r = "rands ?w1 (nrand ?w1)"
  let ?w2 = "?w1\<lparr>nrand := Suc (nrand ?w1)\<rparr>"
  let ?w3 = "snd (set_string (storage lk) ?S ?r ?w2)"
  note u1 = keeps_get(1) [OF k, where w = w and key = ?S, unfolded untouched_def]
  note r1 = keeps_get(2) [OF k, where w = w and key = ?S]
  have a: "?S \<noteq> getEphemeralPath lk"
    by (rule ephemeral_path_apart)
  note u3 = keeps_set_string(2) [OF k a, where v = ?r and w = ?w2, unfolded untouched_def]
  note r3 = keeps_set_string(3) [OF k a, where v = ?r and w = ?w2]
  note f3 = keeps_set_string(1) [OF k a, where v = ?r and w = ?w2]
  show ?thesis
  proof (cases "\<exists>i. reads lk w ?S = JStr i \<and> i \<noteq> []")
    case True
    then obtain i where i: "reads lk w ?S = JStr i" "i \<noteq> []"
      by blast
    with s have "s = Some i" "w' = ?w1"
      by (simp_all add: getSessionId_def reads_def case_prod_beta)
    with i u1 r1 show ?thesis
      by simp
  next
    case False
    with s have "s = fst (set_string (storage lk) ?S ?r ?w2)" "w' = ?w3"
      by (auto simp: getSessionId_def setSessionId_def random8_def reads_def case_prod_beta
            split: jsval.splits if_splits)
    moreover from t u1 have "?r \<noteq> []"
      by (simp add: tokens_def)
    ultimately show ?thesis
      using f3 u3 r3 u1 r1 keeps_reads(1) [OF k, where w = ?w1] by simp
  qed
qed


lemma tokens_rands: "rands w' = rands w \<Longrightarrow> tokens w \<Longrightarrow> tokens w'"
  by (simp add: tokens_def)

lemma newMasterId_keeps:
  assumes k: "keeps lk" and t: "tokens w" and n: "newMasterId lk w = (m, w')"
  shows "now m = clock w (ticks w) \<and> ticks w' = Suc (ticks w) \<and> clock w' = clock w \<and>
      rands w' = rands w \<and>
      (\<forall>i. reads lk w' (getMasterIdPath lk i) = reads lk w (getMasterIdPath lk i)) \<and>
      (\<exists>s. sid m = Some s \<and> identity lk w' (eid m) s)"
proof -
  let ?w0 = "w\<lparr>ticks := Suc (ticks w)\<rparr>"
  obtain e w1 where e: "getEphemeralId lk ?w0 = (e, w1)"
    by (cases "getEphemeralId lk ?w0")
  obtain s w2 where s: "getSessionId lk w1 = (s, w2)"
    by (cases "getSessionId lk w1")
  from n e s have m: "m = \<lparr> now = clock w (ticks w), eid = e, sid = s \<rparr>" "w' = w2"
    by (simp_all add: newMasterId_def toISOString_now_def)
  from t have t0: "tokens ?w0"
    by (simp add: tokens_def)
  note fe = getEphemeralId_frame(1-3) [OF e]
  note ee = getEphemeralId_established [OF e t0]
  from fe(3) t0 have t1: "tokens w1"
    by (rule tokens_rands)
  note ks = getSessionId_keeps [OF k t1 s]
  have r: "reads lk w2 (getMasterIdPath lk i) = reads lk w (getMasterIdPath lk i)" for i
    using ks reads_getEphemeralId [OF k e, of "getMasterIdPath lk i"]
      keeps_reads(2) [OF k, where w = w] ephemeral_path_apart(2,3) [of lk i]
    by simp
  from ks obtain i where i: "s = Some i" "i \<noteq> []" "reads lk w2 (getSessionIdPath lk) = JStr i"
    by blast
  from ks ee have "global w2 (getEphemeralPath lk) = Some (GStr e)"
    by simp
  with i ee(2) have "identity lk w2 e i"
    by (simp add: identity_def)
  with i(1) m fe ks r show ?thesis
    by simp
qed

lemma identity_newMasterId:
  assumes k: "keeps lk" and i: "identity lk w e s" and n: "newMasterId lk w = (m, w')"
  shows "eid m = e \<and> sid m = Some s \<and> identity lk w' e s"
proof -
  let ?w0 = "w\<lparr>ticks := Suc (ticks w)\<rparr>"
  let ?S = "getSessionIdPath lk"
  from i have g: "global ?w0 (getEphemeralPath lk) = Some (GStr e)" "e \<noteq> []"
    and r: "reads lk ?w0 ?S = JStr s" "s \<noteq> []"
    by (simp_all add: identity_def keeps_reads(2) [OF k])
  from g have e: "getEphemeralId lk ?w0 = (e, ?w0)"
    by (simp add: getEphemeralId_def)
  from r have s: "getSessionId lk ?w0 = (Some s, snd (get (storage lk) ?S ?w0))"
    by (simp add: getSessionId_def reads_def case_prod_beta)
  from n e s have m: "eid m = e" "sid m = Some s" "w' = snd (get (storage lk) ?S ?w0)"
    by (auto simp: newMasterId_def toISOString_now_def)
  have "identity lk (snd (get (storage lk) ?S ?w0)) e s"
    using g r keeps_get [OF k, where w = ?w0 and key = ?S]
    by (simp add: identity_def untouched_def)
  with m show ?thesis by simp
qed

lemma setMasterId_keeps:
  assumes k: "keeps lk" and s: "setMasterId lk i v w = (r, w')"
  shows "r = v \<and> reads lk w' (getMasterIdPath lk i) = JWrap \<lparr> wvalue = v, nonce = rands w (nrand w) \<rparr> \<and>
      ticks w' = ticks w \<and> clock w' = clock w \<and> rands w' = rands w \<and>
      (\<forall>e s. identity lk w e s \<longrightarrow> identity lk w' e s)"
proof -
  let ?K = "getMasterIdPath lk i"
  let ?x = "\<lparr> wvalue = v, nonce = rands w (nrand w) \<rparr>"
  let ?w1 = "w\<lparr>nrand := Suc (nrand w)\<rparr>"
  have a: "?K \<noteq> getEphemeralPath lk"
    by (rule ephemeral_path_apart)
  note f = keeps_set_wrapped(1) [OF k a, where v = ?x and w = ?w1]
  note u = keeps_set_wrapped(2) [OF k a, where v = ?x and w = ?w1, unfolded untouched_def]
  note r = keeps_set_wrapped(3) [OF k a, where v = ?x and w = ?w1]
  from s f have "r = v" "w' = snd (set_wrapped (storage lk) ?K ?x ?w1)"
    by (auto simp: setMasterId_def random8_def case_prod_beta)
  then show ?thesis
    using u r keeps_reads(1) [OF k, where w = w] ephemeral_path_apart(3) [of lk i]
    by (auto simp: identity_def)
qed

lemma getMasterId_reads:
  "getMasterId lk i force w =
     (case (case reads lk w (getMasterIdPath lk i) of JWrap x \<Rightarrow> wvalue x | _ \<Rightarrow> None) of
        Some m \<Rightarrow>
          if \<not> force then (Some m, snd (get (storage lk) (getMasterIdPath lk i) w))
          else (let (m', w2) = newMasterId lk (snd (get (storage lk) (getMasterIdPath lk i) w))
                in setMasterId lk i (Some m') w2)
      | None \<Rightarrow>
          (let (m', w2) = newMasterId lk (snd (get (storage lk) (getMasterIdPath lk i) w))
           in setMasterId lk i (Some m') w2))"
  by (simp add: getMasterId_def reads_def case_prod_beta)

subsection \<open>A pass that mints the owner record\<close>

lemma minting_pass:
  assumes k: "keeps lk" and t: "tokens w"
      and e: "force \<or> (case reads lk w (getMasterIdPath lk i) of
                          JWrap x \<Rightarrow> wvalue x | _ \<Rightarrow> None) = None"
  obtains m w2 w3 where
    "getMasterId lk i force w = (Some m, w2)"
    "now m = clock w (ticks w)"
    "holds lk i w2 m"
    "newMasterId lk w2 = (m\<lparr>now := clock w (Suc (ticks w))\<rparr>, w3)"
    "cmpMasterId m (m\<lparr>now := clock w (Suc (ticks w))\<rparr>)"
    "holds lk i w3 m"
    "rands w3 = rands w" "clock w3 = clock w" "ticks w3 = Suc (Suc (ticks w))"
proof -
  let ?K = "getMasterIdPath lk i"
  let ?w0 = "snd (get (storage lk) ?K w)"
  note u0 = keeps_get(1) [OF k, where w = w and key = ?K, unfolded untouched_def]
  from u0 t have t0: "tokens ?w0"
    by (simp add: tokens_def)
  obtain m w1 where m: "newMasterId lk ?w0 = (m, w1)"
    by (cases "newMasterId lk ?w0")
  note f1 = newMasterId_keeps [OF k t0 m]
  then obtain s where s: "sid m = Some s" "identity lk w1 (eid m) s"
    by blast
  obtain r w2 where w2: "setMasterId lk i (Some m) w1 = (r, w2)"
    by (cases "setMasterId lk i (Some m) w1")
  note f2 = setMasterId_keeps [OF k w2]
  from e m w2 f2 have g: "getMasterId lk i force w = (Some m, w2)"
    by (auto simp: getMasterId_reads split: option.splits)
  from f1 u0 have n: "now m = clock w (ticks w)"
    by simp
  from f2 s have i2: "identity lk w2 (eid m) s"
    by blast
  with f2 s(1) have h2: "holds lk i w2 m"
    by (auto simp: holds_def)
  obtain m' w3 where c: "newMasterId lk w2 = (m', w3)"
    by (cases "newMasterId lk w2")
  from f2 f1 u0 t have t2: "tokens w2"
    by (simp add: tokens_def)
  note f3 = newMasterId_keeps [OF k t2 c]
  note i3 = identity_newMasterId [OF k i2 c]
  from f3 f2 f1 u0 have "now m' = clock w (Suc (ticks w))"
    by simp
  with i3 s(1) have m': "m' = m\<lparr>now := clock w (Suc (ticks w))\<rparr>"
    by (cases m, cases m') simp
  from s(1) have p: "cmpMasterId m (m\<lparr>now := clock w (Suc (ticks w))\<rparr>)"
    by (simp add: cmpMasterId_def)
  from f3 f2 i3 s(1) have h3: "holds lk i w3 m"
    by (auto simp: holds_def)
  from f3 f2 f1 u0 have
    "rands w3 = rands w" "clock w3 = clock w" "ticks w3 = Suc (Suc (ticks w))"
    by simp_all
  with g n h2 c [unfolded m'] p h3 show ?thesis
    by (rule that)
qed

text \<open>
  With a negative \<open>expire\<close> a forced pass on a storage that keeps what is written
  never settles: the record it writes and its candidate carry two readings of the
  clock, and their distance is not negative. No depth of recursion is enough.
\<close>

lemma keeping_forced_pass_never_settles:
  assumes k: "keeps lk" and e: "e < 0"
  shows "tokens w \<Longrightarrow> \<forall>n. date_ms P (clock w n) \<noteq> None
         \<Longrightarrow> lockAge j P lk i (Some e) True w = None"
proof (induction j arbitrary: w)
  case 0
  show ?case by (rule lockAge_0)
next
  case (Suc j)
  from minting_pass [OF k Suc.prems(1), of True i]
  obtain m w2 w3 where p: "getMasterId lk i True w = (Some m, w2)"
    "now m = clock w (ticks w)"
    "newMasterId lk w2 = (m\<lparr>now := clock w (Suc (ticks w))\<rparr>, w3)"
    "rands w3 = rands w" "clock w3 = clock w"
    by blast
  from Suc.prems(2) obtain t1 t2 where
    t: "date_ms P (clock w (ticks w)) = Some t1" "date_ms P (clock w (Suc (ticks w))) = Some t2"
    by fastforce
  with p(2) e have x: "expired (Some e) (result_ms P m (m\<lparr>now := clock w (Suc (ticks w))\<rparr>))"
    by (simp add: expired_def result_ms_def)
  have "lockAge j P lk i (Some e) True w3 = None"
    using Suc.prems p(4,5) by (intro Suc.IH) (simp_all add: tokens_def)
  with x show ?case
    by (simp add: lockAge_pass [OF p(1,3)])
qed

subsection \<open>The default storage and the storage of the examples keep what is written\<close>

lemma default_storage_keeps:
  assumes j: "json_roundtrip P" and d: "storage lk = default_storage P"
  shows "keeps lk"
proof -
  have r: "reads lk w key =
             (case stored w key of
                None \<Rightarrow> JNull
              | Some s \<Rightarrow> (case parse P s of Some v \<Rightarrow> v | None \<Rightarrow> JStr s))" for w key
    by (simp add: reads_def d default_storage_get default_get_stored)
  have p: "parse P (stringify P v) = Some v" for v
    using j by (simp add: json_roundtrip_def)
  have sw: "set_wrapped (storage lk) key v w = (Some v, put key (stringify P (JWrap v)) w)" for key v w
    by (simp add: d default_storage_def default_set_roundtrip [OF j])
  have ss: "set_string (storage lk) key v w = (Some v, put key (stringify P (JStr v)) w)" for key v w
    by (simp add: d default_storage_def default_set_roundtrip [OF j])
  have g: "snd (get (storage lk) key w) = w" for key w
    by (simp add: d default_storage_get default_get_world)
  show ?thesis
    unfolding keeps_def
    by (simp add: g sw ss r p untouched_def global_put stored_global_upd)
qed

lemma memory_storage_keeps: "storage lk = memory_storage \<Longrightarrow> keeps lk"
  by (simp add: keeps_def reads_def untouched_def memory_storage_def)

lemma forced_pass_never_settles:
  assumes "storage lk = default_storage P" and "json_roundtrip P" and "e < 0"
      and "tokens w" and "\<forall>n. date_ms P (clock w n) \<noteq> None"
  shows "lockAge k P lk i (Some e) True w = None"
  using keeping_forced_pass_never_settles [OF default_storage_keeps [OF assms(2,1)] assms(3-5)] .

subsection \<open>Release, then acquire\<close>

lemma age_readings:
  "now g = a \<Longrightarrow> now m = b \<Longrightarrow>
   age (result_ms P g m) =
     (case (date_ms P b, date_ms P a) of
        (Some master_ms, Some global_ms) \<Rightarrow>
           if 0 < to_double (master_ms - global_ms) then to_double (master_ms - global_ms) else 1
      | _ \<Rightarrow> 1)"
  by (simp add: age_def result_ms_def split: option.splits)

text \<open>
  C9, as claimed for every lock. It fails for a lock on a storage whose writes do not
  verify: \<open>release\<close> returns \<open>true\<close> and the \<open>acquire\<close> that follows returns \<open>null\<close>.
\<close>

theorem failed_write_release_acquire_null:
  "fst (release (frozen_lock JNull) 0 (ex_world Map.empty () ticking)) = True
   \<and> map_option fst
        (acquire 1 ex_platform (frozen_lock JNull) 0 None
           (snd (release (frozen_lock JNull) 0 (ex_world Map.empty () ticking))))
       = Some None"
  by (simp add: release_def acquire_def lockAge.simps lock_defs example_defs)

text \<open>
  C9, amended. For a lock whose storage keeps what is written (every \<open>set\<close> verifies
  and a \<open>get\<close> returns what was last written under its key, as with the default
  storage) and with non-empty random tokens: \<open>release(index)\<close> returns \<open>true\<close> and
  the slot then reads as released; \<open>acquire(index)\<close> right after it mints a fresh
  record, stamped with its reading of the clock and with the caller's ephemeral and
  session id, writes it to the slot, and returns a strictly positive number: the
  distance to the next reading of the clock if that is positive, and 1 otherwise.
\<close>

theorem release_then_acquire:
  assumes "keeps lk" and "tokens w" and "release lk index w = (r, w1)"
  shows "r = True
       \<and> reads lk w1 (getMasterIdPath lk index)
           = JWrap \<lparr> wvalue = None, nonce = rands w (nrand w) \<rparr>
       \<and> (\<exists>ms w2 m. acquire (Suc k) P lk index None w1 = Some (Some ms, w2) \<and> 0 < ms
                \<and> ms = (case (date_ms P (clock w (Suc (ticks w))),
                               date_ms P (clock w (ticks w))) of
                           (Some master_ms, Some global_ms) \<Rightarrow>
                              if 0 < to_double (master_ms - global_ms)
                              then to_double (master_ms - global_ms) else 1
                         | _ \<Rightarrow> 1)
                \<and> now m = clock w (ticks w) \<and> holds lk index w2 m)"
proof -
  let ?K = "getMasterIdPath lk index"
  obtain v w' where v': "setMasterId lk index None w = (v, w')"
    by (cases "setMasterId lk index None w")
  with assms(3) have v: "setMasterId lk index None w = (v, w1)" and rv: "r = (v = None)"
    by (auto simp: release_def)
  note f = setMasterId_keeps [OF assms(1) v]
  from f rv have r: "r = True"
    by simp
  from f have s: "reads lk w1 ?K = JWrap \<lparr> wvalue = None, nonce = rands w (nrand w) \<rparr>"
    by simp
  then have e: "False \<or> (case reads lk w1 ?K of JWrap x \<Rightarrow> wvalue x | _ \<Rightarrow> None) = None"
    by simp
  from f assms(2) have t: "tokens w1"
    by (simp add: tokens_def)
  from minting_pass [OF assms(1) t e]
  obtain m w2 w3 where p: "getMasterId lk index False w1 = (Some m, w2)"
    "now m = clock w1 (ticks w1)"
    "newMasterId lk w2 = (m\<lparr>now := clock w1 (Suc (ticks w1))\<rparr>, w3)"
    "cmpMasterId m (m\<lparr>now := clock w1 (Suc (ticks w1))\<rparr>)"
    "holds lk index w3 m"
    by blast
  let ?n = "case (date_ms P (clock w (Suc (ticks w))), date_ms P (clock w (ticks w))) of
              (Some master_ms, Some global_ms) \<Rightarrow>
                 if 0 < to_double (master_ms - global_ms)
                 then to_double (master_ms - global_ms) else 1
            | _ \<Rightarrow> 1"
  have "age (result_ms P m (m\<lparr>now := clock w1 (Suc (ticks w1))\<rparr>)) = ?n"
    using p(2) f by (simp add: age_readings)
  with p(4) have a: "acquire (Suc k) P lk index None w1 = Some (Some ?n, w3)"
    by (simp add: acquire_def lockAge_pass [OF p(1,3)] expired_def)
  moreover from a have "0 < ?n"
    by (auto simp: acquire_def dest: lockAge_positive)
  moreover from p(2) f have "now m = clock w (ticks w)"
    by simp
  ultimately show ?thesis
    using r s p(5) by blast
qed

lemma my_lock_keeps: "keeps my_lock"
  by (rule default_storage_keeps [OF ex_platform_roundtrip]) (simp add: my_lock_def)

lemma ex_tokens: "tokens (ex_world g x c)"
  by (simp add: tokens_def ex_world_def ex_rands_def)

theorem release_then_acquire_witness:
  "keeps my_lock \<and> tokens (ex_world Map.empty () ticking)
   \<and> fst (release my_lock 0 (ex_world Map.empty () ticking)) = True
   \<and> (\<exists>w2 m. acquire 1 ex_platform my_lock 0 None
                  (snd (release my_lock 0 (ex_world Map.empty () ticking))) = Some (Some 5, w2)
             \<and> now m = ''1970-01-01T00:00:00.000Z'' \<and> holds my_lock 0 w2 m)"
proof -
  have r: "release my_lock 0 (ex_world Map.empty () ticking)
             = (fst (release my_lock 0 (ex_world Map.empty () ticking)),
                snd (release my_lock 0 (ex_world Map.empty () ticking)))"
    by simp
  show ?thesis
    using my_lock_keeps ex_tokens [of Map.empty "()" ticking]
      release_then_acquire [OF my_lock_keeps ex_tokens r, of 0 ex_platform]
    by (simp add: ex_world_def ticking_def ex_platform_def ex_getTime_def date_ms_def to_double_def)
qed

subsection \<open>An expired owner\<close>

text \<open>
  C6, as claimed: when the owner record is older than \<open>expire\<close>, \<open>acquire\<close> succeeds
  with a positive number. It fails when the write of the forced pass does not verify:
  the storage of the example holds a record that is 10 ms old at the candidate's
  reading, \<open>expire\<close> is 5, and \<open>acquire\<close> returns \<open>null\<close>.
\<close>

theorem acquire_expired_owner_null:
  "fst (get (storage (frozen_lock (JWrap held_record)))
          (getMasterIdPath (frozen_lock (JWrap held_record)) 0)
          ((ex_world Map.empty () ticking)\<lparr>ticks := 2\<rparr>)) = JWrap held_record
   \<and> result_ms ex_platform (the (wvalue held_record))
        (fst (newMasterId (frozen_lock (JWrap held_record))
                ((ex_world Map.empty () ticking)\<lparr>ticks := 2\<rparr>))) = Some 10
   \<and> map_option fst
        (acquire 2 ex_platform (frozen_lock (JWrap held_record)) 0 (Some 5)
           ((ex_world Map.empty () ticking)\<lparr>ticks := 2\<rparr>)) = Some None"
  by (simp add: acquire_def lockAge.simps eval_nat_numeral lock_defs example_defs
        result_ms_def expired_def cmpMasterId_def age_def)

text \<open>
  C6, amended. For a lock whose storage keeps what is written (every \<open>set\<close> verifies
  and a \<open>get\<close> returns what was last written under its key, as with the default
  storage) and with non-empty random tokens: when the slot holds an owner record that
  is more than \<open>e\<close> ms away from the candidate's reading of the clock, and the next
  two readings of the clock are at most \<open>e\<close> ms apart, then \<open>acquire\<close> with
  \<open>expire = e\<close> makes one forced retry, which writes over the stale record a fresh one
  stamped with the second reading and with the caller's ephemeral and session id, and
  returns the distance of the next two readings if that is positive and 1 otherwise.
\<close>

theorem acquire_steals_expired_slot:
  assumes k: "keeps lk" and t: "tokens w"
      and x: "reads lk w (getMasterIdPath lk index) = JWrap x" "wvalue x = Some g"
      and tg: "date_ms P (now g) = Some tg"
      and t0: "date_ms P (clock w (ticks w)) = Some t0"
      and stale: "\<bar>to_double (t0 - tg)\<bar> > e"
      and t1: "date_ms P (clock w (Suc (ticks w))) = Some t1"
      and t2: "date_ms P (clock w (Suc (Suc (ticks w)))) = Some t2"
      and fresh: "\<bar>to_double (t2 - t1)\<bar> \<le> e"
  shows "\<exists>w' m. acquire (Suc (Suc j)) P lk index (Some e) w
                  = Some (Some (if 0 < to_double (t2 - t1) then to_double (t2 - t1) else 1), w')
             \<and> now m = clock w (Suc (ticks w)) \<and> holds lk index w' m"
proof -
  let ?K = "getMasterIdPath lk index"
  let ?w0 = "snd (get (storage lk) ?K w)"
  note u0 = keeps_get(1) [OF k, where w = w and key = ?K, unfolded untouched_def]
  from x have g: "getMasterId lk index False w = (Some g, ?w0)"
    by (simp add: getMasterId_reads)
  from u0 t have t0': "tokens ?w0"
    by (simp add: tokens_def)
  obtain m1 w1 where m1: "newMasterId lk ?w0 = (m1, w1)"
    by (cases "newMasterId lk ?w0")
  note f = newMasterId_keeps [OF k t0' m1]
  from f u0 tg t0 stale have s: "expired (Some e) (result_ms P g m1)"
    by (simp add: expired_def result_ms_def)
  from f u0 t have t': "tokens w1"
    by (simp add: tokens_def)
  from minting_pass [OF k t', of True index]
  obtain m w2 w3 where p: "getMasterId lk index True w1 = (Some m, w2)"
    "now m = clock w1 (ticks w1)"
    "newMasterId lk w2 = (m\<lparr>now := clock w1 (Suc (ticks w1))\<rparr>, w3)"
    "cmpMasterId m (m\<lparr>now := clock w1 (Suc (ticks w1))\<rparr>)"
    "holds lk index w3 m"
    by blast
  from p(2) f u0 t1 t2
  have r: "result_ms P m (m\<lparr>now := clock w1 (Suc (ticks w1))\<rparr>) = Some (to_double (t2 - t1))"
    by (simp add: result_ms_def)
  with fresh have ne: "\<not> expired (Some e) (result_ms P m (m\<lparr>now := clock w1 (Suc (ticks w1))\<rparr>))"
    by (simp add: expired_def)
  have "lockAge (Suc j) P lk index (Some e) True w1
          = Some (Some (if 0 < to_double (t2 - t1) then to_double (t2 - t1) else 1), w3)"
    using ne p(4) r by (simp add: lockAge_pass [OF p(1,3)] age_def)
  with s have "acquire (Suc (Suc j)) P lk index (Some e) w
          = Some (Some (if 0 < to_double (t2 - t1) then to_double (t2 - t1) else 1), w3)"
    by (simp add: acquire_def lockAge_pass [OF g m1])
  moreover have "now m = clock w (Suc (ticks w))"
    using p(2) f u0 by simp
  ultimately show ?thesis
    using p(5) by blast
qed

lemma memory_lock_keeps: "keeps memory_lock"
  by (rule memory_storage_keeps) (simp add: memory_lock_def)

theorem acquire_steals_expired_slot_witness:
  "keeps memory_lock \<and> tokens (held_world 2)
   \<and> reads memory_lock (held_world 2) (getMasterIdPath memory_lock 0) = JWrap held_record
   \<and> (\<exists>w' m. acquire 2 ex_platform memory_lock 0 (Some 5) (held_world 2) = Some (Some 5, w')
             \<and> now m = ''1970-01-01T00:00:00.015Z'' \<and> holds memory_lock 0 w' m)"
proof -
  let ?w = "held_world 2"
  let ?g = "\<lparr> now = ''1970-01-01T00:00:00.000Z'', eid = ''aaaaaaaa'', sid = Some ''bbbbbbbb'' \<rparr>"
  have t: "tokens ?w"
    by (simp add: tokens_def held_world_def ex_rands_def)
  have x: "reads memory_lock ?w (getMasterIdPath memory_lock 0) = JWrap held_record"
    by (simp add: reads_def lock_defs example_defs)
  have g: "wvalue held_record = Some ?g"
    by (simp add: held_record_def)
  have tg: "date_ms ex_platform (now ?g) = Some 0"
    by (simp add: example_defs)
  have t0: "date_ms ex_platform (clock ?w (ticks ?w)) = Some 10"
    by (simp add: example_defs)
  have t1: "date_ms ex_platform (clock ?w (Suc (ticks ?w))) = Some 15"
    by (simp add: example_defs)
  have t2: "date_ms ex_platform (clock ?w (Suc (Suc (ticks ?w)))) = Some 20"
    by (simp add: example_defs)
  have s: "\<bar>to_double (10 - 0)\<bar> > (5::int)" and f: "\<bar>to_double (20 - 15)\<bar> \<le> (5::int)"
    by (simp_all add: to_double_def)
  show ?thesis
    using memory_lock_keeps t x
      acquire_steals_expired_slot [OF memory_lock_keeps t x g tg t0 s t1 t2 f, of 0]
    by (simp add: numeral_2_eq_2 to_double_def held_world_def ticking_def)
qed

end
